theory Spec2Isabelle
  imports Complex_Main "HOL-Library.Word"
begin

section \<open>Numbers, bytes and errors\<close>

text \<open>
  The codec of \<^verbatim>\<open>coldpress\<close> (\<^verbatim>\<open>encode.py\<close>, \<^verbatim>\<open>decode.py\<close>) works on
  numpy arrays of IEEE doubles, Python integers and \<^verbatim>\<open>bytes\<close>. Here a byte is an
  \<open>8 word\<close>, a Python integer is an \<open>int\<close>, and a float is a \<open>rat\<close>: a float
  operation of the source is read as the exact operation on rationals, so the rounding of
  double arithmetic and the non-finite values (inf, NaN) are outside the model. The one
  exception is the quotient \<^verbatim>\<open>(z+0.01) / 0.0002\<close> from which \<^verbatim>\<open>encode_quantiles\<close>
  takes the endpoint codes: there the rounding of the double operations decides a whole
  code, and the quotient is computed as IEEE doubles compute it (\<open>endpoint_quotient\<close>).
  An exception of the source is the \<open>Inl\<close> branch of a sum type.
\<close>

type_synonym byte = "8 word"

datatype value_error =
    CannotFit            \<comment> \<open>\<^verbatim>\<open>cannot fit {Nq} quantiles in an {packetsize}-bytes packet\<close>\<close>
  | EpsMinTooLarge       \<comment> \<open>\<^verbatim>\<open>minimum usable epsilon={eps_min} is too large\<close>\<close>
  | EpsTooLarge          \<comment> \<open>\<^verbatim>\<open>epsilon={eps} is too large for 1 byte encoding\<close>\<close>
  | PayloadTooLong       \<comment> \<open>\<^verbatim>\<open>payload of length {L} does not fit in packet\<close>\<close>
  | WrongCount           \<comment> \<open>\<^verbatim>\<open>packet decodes to wrong number of quantiles\<close>\<close>
  | ShiftExceeds         \<comment> \<open>\<^verbatim>\<open>shift in quantiles exceeds tolerance\<close>\<close>
  | BadPacketsize        \<comment> \<open>\<^verbatim>\<open>packetsize must be a multiple of 4\<close>\<close>
  | BadIniQuantiles      \<comment> \<open>\<^verbatim>\<open>ini_quantiles must be at most packetsize-3\<close>\<close>
  | BadArguments         \<comment> \<open>the argument checks of \<^verbatim>\<open>quantiles_to_binned\<close>\<close>
  | RangeExceeded        \<comment> \<open>\<^verbatim>\<open>Decoded redshift range ... exceeds the target grid range\<close>\<close>
  | UnknownMethod        \<comment> \<open>\<^verbatim>\<open>Unknown interpolation method\<close>\<close>
  | Builtin              \<comment> \<open>a ValueError raised by Python or numpy itself\<close>

datatype error =
    ValueError value_error
  | IndexError
  | StructError          \<comment> \<open>\<^verbatim>\<open>struct.error\<close>, not a subclass of ValueError\<close>
  | TypeError
  | NameError            \<comment> \<open>also its subclass UnboundLocalError\<close>
  | ZeroDivision         \<comment> \<open>a division by zero: an exception on Python numbers,
                             a non-finite value (outside the model) on numpy ones\<close>

section \<open>\<^verbatim>\<open>struct\<close>: unsigned 16-bit fields\<close>

text \<open>\<^verbatim>\<open>struct.pack('>H', d)\<close> and \<^verbatim>\<open>struct.pack('<H', d)\<close> raise
  \<^verbatim>\<open>struct.error\<close> unless \<open>0 \<le> d \<le> 65535\<close>.\<close>

definition pack_be_H :: "int \<Rightarrow> error + byte list" where
  "pack_be_H d =
     (if 0 \<le> d \<and> d \<le> 65535 then Inr [word_of_int (d div 256), word_of_int (d mod 256)]
      else Inl StructError)"

definition pack_le_H :: "int \<Rightarrow> error + byte list" where
  "pack_le_H d =
     (if 0 \<le> d \<and> d \<le> 65535 then Inr [word_of_int (d mod 256), word_of_int (d div 256)]
      else Inl StructError)"

text \<open>\<^verbatim>\<open>struct.unpack('>H', bs)\<close> and \<^verbatim>\<open>'<H'\<close> on exactly two bytes.\<close>

definition unpack_be_H :: "byte \<Rightarrow> byte \<Rightarrow> int" where
  "unpack_be_H hi lo = uint hi * 256 + uint lo"

definition unpack_le_H :: "byte \<Rightarrow> byte \<Rightarrow> int" where
  "unpack_le_H lo hi = uint lo + uint hi * 256"

section \<open>\<^verbatim>\<open>decode_quantiles\<close>\<close>

text \<open>\<^verbatim>\<open>max(payload[i:])\<close> on the non-empty slice \<open>b # rest\<close>.\<close>

fun maximum :: "byte \<Rightarrow> byte list \<Rightarrow> byte" where
  "maximum m [] = m"
| "maximum m (x # xs) = maximum (max m x) xs"

text \<open>
  The \<^verbatim>\<open>while i < length\<close> loop of \<^verbatim>\<open>decode_quantiles\<close>. The byte list is
  \<^verbatim>\<open>payload[i:]\<close>, \<open>prev\<close> is \<^verbatim>\<open>zs[-1]\<close>, and the result is the list of values the
  loop appends to \<^verbatim>\<open>zs\<close>, in order. A marker 255 with fewer than two bytes after it
  makes \<^verbatim>\<open>struct.unpack('>H', payload[i+1:i+3])\<close> raise.
\<close>

fun decode_walk :: "rat \<Rightarrow> rat \<Rightarrow> byte list \<Rightarrow> error + rat list" where
  "decode_walk eps prev [] = Inr []"
| "decode_walk eps prev (b # rest) =
     (if b = 0 \<and> maximum b rest = 0 then Inr []
      else if b < 255 then
        (let z = prev + of_int (uint b) * eps in
         case decode_walk eps z rest of
           Inl e \<Rightarrow> Inl e
         | Inr zs \<Rightarrow> Inr (z # zs))
      else
        (case rest of
           hi # lo # rest' \<Rightarrow>
             (let z = prev + of_int (unpack_be_H hi lo) * eps in
              case decode_walk eps z rest' of
                Inl e \<Rightarrow> Inl e
              | Inr zs \<Rightarrow> Inr (z # zs))
         | _ \<Rightarrow> Inl StructError))"

text \<open>
  The affine map \<^verbatim>\<open>x_int * 0.0002 - 0.01\<close> from an endpoint code to a redshift; the
  source writes it out for \<^verbatim>\<open>zmin\<close> and \<^verbatim>\<open>zmax\<close> in \<^verbatim>\<open>decode_quantiles\<close>
  and for \<^verbatim>\<open>zmin_rec\<close> and \<^verbatim>\<open>zmax_rec\<close> in \<^verbatim>\<open>encode_quantiles\<close>.
\<close>

definition endpoint :: "int \<Rightarrow> rat" where
  "endpoint x_int = of_int x_int * (2 / 10000) - 1 / 100"

text \<open>
  \<^verbatim>\<open>packet[0]\<close> raises IndexError on an empty packet, and
  \<^verbatim>\<open>struct.unpack('<HH', packet[1:5])\<close> raises unless the slice has four bytes.
\<close>

definition decode_quantiles :: "byte list \<Rightarrow> error + rat list" where
  "decode_quantiles packet =
     (case packet of
        [] \<Rightarrow> Inl IndexError
      | eps_int # b1 # b2 # b3 # b4 # payload \<Rightarrow>
          (let eps = of_int (uint eps_int) * (1 / 100000);
               xmin_int = unpack_le_H b1 b2;
               xmax_int = unpack_le_H b3 b4;
               zmin = endpoint xmin_int;
               zmax = endpoint xmax_int
           in case decode_walk eps zmin payload of
                Inl e \<Rightarrow> Inl e
              | Inr zs \<Rightarrow> Inr (zmin # zs @ [zmax]))
      | _ \<Rightarrow> Inl StructError)"

section \<open>\<^verbatim>\<open>encode_quantiles\<close>\<close>

text \<open>
  Python's \<^verbatim>\<open>round\<close> and \<^verbatim>\<open>np.round\<close>: to the nearest integer, a tie to the even
  one (the library's \<open>round\<close> takes a tie upwards).
\<close>

definition py_round :: "rat \<Rightarrow> int" where
  "py_round x =
     (let f = \<lfloor>x\<rfloor>; r = x - of_int f
      in if r < 1 / 2 then f
         else if 1 / 2 < r then f + 1
         else if even f then f else f + 1)"

text \<open>
  IEEE 754 binary64 arithmetic, for the endpoint codes. \<open>bit_length n\<close> is the number
  of binary digits of \<open>n\<close>, \<open>pow2 e\<close> is \<open>2\<close> to the integer power \<open>e\<close>, and
  \<open>floor_log2 x\<close> is the exponent of the leading bit of \<open>x > 0\<close>: with \<open>x = p / q\<close>
  in lowest terms and \<open>k\<close> the difference of the bit lengths of \<open>p\<close> and \<open>q\<close>, it is
  \<open>k\<close> or \<open>k - 1\<close>.
\<close>

function bit_length :: "int \<Rightarrow> int" where
  "bit_length n = (if n \<le> 0 then 0 else 1 + bit_length (n div 2))"
  by pat_completeness auto
termination
  by (relation "measure nat") auto

declare bit_length.simps [simp del]

definition pow2 :: "int \<Rightarrow> rat" where
  "pow2 e = (if 0 \<le> e then 2 ^ nat e else 1 / 2 ^ nat (- e))"

definition floor_log2 :: "rat \<Rightarrow> int" where
  "floor_log2 x =
     (let k = bit_length (fst (quotient_of x)) - bit_length (snd (quotient_of x))
      in if pow2 k \<le> x then k else k - 1)"

text \<open>
  The double nearest to a rational: the rational is scaled so that its leading bit is the
  53rd (a subnormal one so that the unit is \<open>2\<close> to the \<open>-1074\<close>), rounded to the
  nearest integer with a tie to the even one, and scaled back. A result beyond the largest
  double, which the hardware turns into an infinity, is outside the model.
\<close>

definition round_double :: "rat \<Rightarrow> rat" where
  "round_double x =
     (if x = 0 then 0
      else
        (let e = max (floor_log2 \<bar>x\<bar> - 52) (- 1074)
         in sgn x * of_int (py_round (\<bar>x\<bar> / pow2 e)) * pow2 e))"

text \<open>The doubles that the literals \<^verbatim>\<open>0.01\<close> and \<^verbatim>\<open>0.0002\<close> denote.\<close>

definition double_0_01 :: rat where
  "double_0_01 = 5764607523034235 / 2 ^ 59"

definition double_0_0002 :: rat where
  "double_0_0002 = 7378697629483821 / 2 ^ 65"

text \<open>
  \<^verbatim>\<open>(z+0.01) / 0.0002\<close> in double arithmetic: the sum is rounded, and the quotient of
  the rounded sum by the double \<^verbatim>\<open>0.0002\<close> is rounded. For \<open>z = 2.0\<close> it is
  \<open>10049.999999999998\<close>, where the exact quotient is \<open>10050\<close>.
\<close>

definition endpoint_quotient :: "rat \<Rightarrow> rat" where
  "endpoint_quotient z = round_double (round_double (z + double_0_01) / double_0_0002)"

text \<open>\<^verbatim>\<open>xs[i]\<close>: a negative index counts from the end, an index out of range raises.\<close>

definition py_index :: "'a list \<Rightarrow> int \<Rightarrow> error + 'a" where
  "py_index xs i =
     (let n = int (length xs);
          j = (if i < 0 then i + n else i)
      in if 0 \<le> j \<and> j < n then Inr (xs ! nat j) else Inl IndexError)"

text \<open>
  The slices \<^verbatim>\<open>a[1:-1]\<close> and \<^verbatim>\<open>a[:-2]\<close> of an array; both are empty on an array
  of fewer than three, respectively two, elements.
\<close>

definition interior :: "'a list \<Rightarrow> 'a list" where
  "interior a = butlast (tl a)"

definition but_last_two :: "'a list \<Rightarrow> 'a list" where
  "but_last_two a = butlast (butlast a)"

text \<open>
  One step of the payload loop, for the rounded delta \<open>d\<close>: the bytes appended to
  \<^verbatim>\<open>payload\<close>. In the escape branch \<^verbatim>\<open>struct.pack('>H', d)\<close> raises when \<open>d\<close> is
  not an unsigned 16-bit value.
\<close>

definition delta_record :: "int \<Rightarrow> error + byte list" where
  "delta_record d =
     (if 0 \<le> d \<and> d \<le> 254 then Inr [word_of_int d]
      else case pack_be_H d of
             Inl e \<Rightarrow> Inl e
           | Inr bs \<Rightarrow> Inr (255 # bs))"

text \<open>The loop \<^verbatim>\<open>for z in quantiles[1:-1]\<close> that builds the payload.\<close>

fun build_payload :: "rat \<Rightarrow> rat \<Rightarrow> rat list \<Rightarrow> error + byte list" where
  "build_payload eps prev [] = Inr []"
| "build_payload eps prev (z # zs) =
     (let d = py_round ((z - prev) / eps)
      in case delta_record d of
           Inl e \<Rightarrow> Inl e
         | Inr record \<Rightarrow>
             (case build_payload eps (prev + of_int d * eps) zs of
                Inl e \<Rightarrow> Inl e
              | Inr payload \<Rightarrow> Inr (record @ payload)))"

text \<open>
  The validation step: decode the packet and compare. \<^verbatim>\<open>max\<close> of an empty array
  raises ValueError, and the comparison with \<^verbatim>\<open>tolerance=None\<close> (what
  \<^verbatim>\<open>_batch_encode\<close> passes by default) raises TypeError.
\<close>

definition validate_packet ::
  "rat list \<Rightarrow> byte list \<Rightarrow> rat option \<Rightarrow> error + unit" where
  "validate_packet quantiles packet tolerance =
     (case decode_quantiles packet of
        Inl e \<Rightarrow> Inl e
      | Inr qrecovered \<Rightarrow>
          if length qrecovered \<noteq> length quantiles then Inl (ValueError WrongCount)
          else
            (let shift = map2 (\<lambda>a b. a - b) (interior quantiles) (interior qrecovered)
             in if shift = [] then Inl (ValueError Builtin)
                else case tolerance of
                       None \<Rightarrow> Inl TypeError
                     | Some tol \<Rightarrow>
                         if Max (set (map abs shift)) > tol then Inl (ValueError ShiftExceeds)
                         else Inr ()))"

text \<open>
  The choice of the quantization step from the sorted gaps (from
  \<^verbatim>\<open>gapthreshold = gaps[-max_big_gaps-1]\<close> to the check of the one-byte code of
  \<^verbatim>\<open>eps\<close>): the lookup raises IndexError on a gaps array that is too short.
\<close>

definition choose_eps :: "rat list \<Rightarrow> int \<Rightarrow> error + rat" where
  "choose_eps gaps max_big_gaps =
     (case py_index gaps (- max_big_gaps - 1) of
        Inl e \<Rightarrow> Inl e
      | Inr gapthreshold \<Rightarrow>
          (let eps_min = (1 / 100000) * of_int \<lceil>100000 * gapthreshold / 254\<rceil>
           in if eps_min > 255 / 100000 then Inl (ValueError EpsMinTooLarge)
              else
                (let eps_min2 = (1 / 100000) * of_int \<lceil>100000 * last gaps / (256 ^ 2 - 1)\<rceil>;
                     eps = max (1 / 100000) (max eps_min eps_min2)
                 in if py_round (eps * 100000) > 255 then Inl (ValueError EpsTooLarge)
                    else Inr eps)))"

text \<open>
  \<^verbatim>\<open>encode_quantiles(quantiles, packetsize, validate, tolerance)\<close>, statement by
  statement. The result is the pair \<^verbatim>\<open>(L, packet)\<close>. \<^verbatim>\<open>quantiles[0]\<close> raises
  IndexError on an empty array. The endpoint codes are the floor and the ceiling of the
  double quotient.
\<close>

definition encode_quantiles ::
  "rat list \<Rightarrow> int \<Rightarrow> bool \<Rightarrow> rat option \<Rightarrow> error + (int \<times> byte list)" where
  "encode_quantiles quantiles packetsize validate tolerance =
     (let Nq = int (length quantiles)
      in if Nq > packetsize - 3 then Inl (ValueError CannotFit)
         else if quantiles = [] then Inl IndexError
         else
           (let zmin = hd quantiles;
                zmax = last quantiles;
                xmin_int = \<lfloor>endpoint_quotient zmin\<rfloor>;
                xmax_int = \<lceil>endpoint_quotient zmax\<rceil>;
                zmin_rec = endpoint xmin_int;
                zmax_rec = endpoint xmax_int;
                max_big_gaps = (packetsize - (Nq + 3)) div 2;
                gaps = sort (map2 (\<lambda>a b. a - b) (interior quantiles) (but_last_two quantiles))
            in case choose_eps gaps max_big_gaps of
                 Inl e \<Rightarrow> Inl e
               | Inr eps \<Rightarrow>
                   (case build_payload eps zmin_rec (interior quantiles) of
                      Inl e \<Rightarrow> Inl e
                    | Inr payload \<Rightarrow>
                        (let L = int (length payload)
                         in if L > packetsize - 5 then Inl (ValueError PayloadTooLong)
                            else
                              (case pack_le_H xmin_int of
                                 Inl e \<Rightarrow> Inl e
                               | Inr bmin \<Rightarrow>
                                   (case pack_le_H xmax_int of
                                      Inl e \<Rightarrow> Inl e
                                    | Inr bmax \<Rightarrow>
                                        (let packet =
                                               word_of_int (py_round (eps * 100000))
                                               # bmin @ bmax @ payload
                                               @ replicate (nat (packetsize - 5 - L)) 0
                                         in if validate
                                            then
                                              (case validate_packet quantiles packet tolerance of
                                                 Inl e \<Rightarrow> Inl e
                                               | Inr _ \<Rightarrow> Inr (L, packet))
                                            else Inr (L, packet))))))))"

section \<open>The numpy functions the extractors and the reconstruction use\<close>

text \<open>
  \<^verbatim>\<open>np.linspace(start, stop, num)\<close>: a negative \<open>num\<close> raises ValueError, and
  \<open>num = 1\<close> gives \<open>[start]\<close>.
\<close>

definition np_linspace :: "rat \<Rightarrow> rat \<Rightarrow> int \<Rightarrow> error + rat list" where
  "np_linspace start stop num =
     (if num < 0 then Inl (ValueError Builtin)
      else if num = 1 then Inr [start]
      else Inr (map (\<lambda>i. start + of_nat i * ((stop - start) / of_int (num - 1)))
                  [0..<nat num]))"

text \<open>
  \<^verbatim>\<open>np.quantile(a, targets, method='linear')\<close> on a sorted array: the value at the
  virtual index \<open>(n - 1) * p\<close>, interpolated between its two neighbours. A probability
  outside \<open>[0, 1]\<close> raises ValueError; an empty array raises IndexError in current
  numpy.
\<close>

definition quantile_at :: "rat list \<Rightarrow> rat \<Rightarrow> rat" where
  "quantile_at a p =
     (let h = of_nat (length a - 1) * p;
          lo = nat \<lfloor>h\<rfloor>;
          hi = min (lo + 1) (length a - 1)
      in a ! lo + (h - of_nat lo) * (a ! hi - a ! lo))"

definition np_quantile :: "rat list \<Rightarrow> rat list \<Rightarrow> error + rat list" where
  "np_quantile a targets =
     (if \<not> list_all (\<lambda>p. 0 \<le> p \<and> p \<le> 1) targets then Inl (ValueError Builtin)
      else if a = [] then Inl IndexError
      else Inr (map (quantile_at a) targets))"

text \<open>
  \<^verbatim>\<open>np.interp(x, xp, fp, left, right)\<close> at one point: \<open>left\<close> below \<^verbatim>\<open>xp[0]\<close>,
  \<open>right\<close> above \<^verbatim>\<open>xp[-1]\<close>, and otherwise the line through the points \<open>j\<close> and
  \<open>j + 1\<close> with \<^verbatim>\<open>xp[j] <= x < xp[j+1]\<close>. On a non-decreasing \<open>xp\<close> this \<open>j\<close>
  is the number of leading elements that are at most \<open>x\<close>, minus one. numpy finds it by
  bisection and does not check that \<open>xp\<close> is non-decreasing; on any other \<open>xp\<close> its
  result depends on the search, and the model keeps the formula.
\<close>

definition interp_at :: "rat list \<Rightarrow> rat list \<Rightarrow> rat \<Rightarrow> rat \<Rightarrow> rat \<Rightarrow> rat" where
  "interp_at xp fp left right x =
     (if x < hd xp then left
      else if last xp < x then right
      else
        (let j = length (takeWhile (\<lambda>v. v \<le> x) xp) - 1
         in if j = length xp - 1 then fp ! j
            else if xp ! j = x then fp ! j
            else (fp ! (j + 1) - fp ! j) / (xp ! (j + 1) - xp ! j) * (x - xp ! j) + fp ! j))"

text \<open>An empty \<open>xp\<close> and an \<open>fp\<close> of another length raise ValueError; the defaults of
  \<open>left\<close> and \<open>right\<close> are \<^verbatim>\<open>fp[0]\<close> and \<^verbatim>\<open>fp[-1]\<close>.\<close>

definition np_interp ::
  "rat list \<Rightarrow> rat list \<Rightarrow> rat list \<Rightarrow> rat option \<Rightarrow> rat option \<Rightarrow> error + rat list" where
  "np_interp x xp fp left right =
     (if xp = [] \<or> length fp \<noteq> length xp then Inl (ValueError Builtin)
      else
        (let l = (case left of None \<Rightarrow> hd fp | Some v \<Rightarrow> v);
             r = (case right of None \<Rightarrow> last fp | Some v \<Rightarrow> v)
         in Inr (map (interp_at xp fp l r) x)))"

text \<open>\<^verbatim>\<open>np.cumsum\<close>, with the running sum as an argument.\<close>

fun cumsum :: "rat \<Rightarrow> rat list \<Rightarrow> rat list" where
  "cumsum s [] = []"
| "cumsum s (x # xs) = (s + x) # cumsum (s + x) xs"

section \<open>The quantile extractors\<close>

text \<open>A sample is a finite float or a non-finite one (inf, NaN).\<close>

datatype sample = Finite rat | NonFinite

fun isfinite :: "sample \<Rightarrow> bool" where
  "isfinite (Finite z) = True"
| "isfinite NonFinite = False"

fun finite_values :: "sample list \<Rightarrow> rat list" where
  "finite_values [] = []"
| "finite_values (Finite z # zs) = z # finite_values zs"
| "finite_values (NonFinite # zs) = finite_values zs"

definition samples_to_quantiles :: "sample list \<Rightarrow> int \<Rightarrow> error + rat list" where
  "samples_to_quantiles samples Nquantiles =
     (let zsorted = sort (finite_values samples)
      in case np_linspace 0 1 Nquantiles of
           Inl e \<Rightarrow> Inl e
         | Inr targets \<Rightarrow> np_quantile zsorted targets)"

text \<open>
  \<^verbatim>\<open>binned_to_quantiles(z_grid, Pz, Nquantiles)\<close>. \<^verbatim>\<open>np.min\<close> of an empty index
  array raises ValueError, \<^verbatim>\<open>z_grid[1]\<close> raises IndexError on a grid of fewer than two
  points, and the assignment of the cumulative sums raises ValueError when the trimmed
  grid and the trimmed densities differ in length. Where the final cumulative value is
  zero, numpy divides to non-finite values and goes on; those values are outside the
  rationals, and the model stops there with \<open>ZeroDivision\<close>.
\<close>

definition binned_to_quantiles :: "rat list \<Rightarrow> rat list \<Rightarrow> int \<Rightarrow> error + rat list" where
  "binned_to_quantiles z_grid Pz Nquantiles =
     (let nonzero = filter (\<lambda>i. Pz ! i > 0) [0..<length Pz]
      in if length nonzero = 1 then
           (if length z_grid < 2 \<or> length z_grid \<le> hd nonzero then Inl IndexError
            else
              (let dz = z_grid ! 1 - z_grid ! 0
               in np_linspace (z_grid ! hd nonzero - dz / 2) (z_grid ! hd nonzero + dz / 2)
                    Nquantiles))
         else if nonzero = [] then Inl (ValueError Builtin)
         else
           (let imin = hd nonzero;
                imax = last nonzero;
                z_grid' = take (imax + 1 - imin) (drop imin z_grid);
                Pz' = take (imax + 1 - imin) (drop imin Pz)
            in if length z_grid' < 2 then Inl IndexError
               else
                 (let dz = z_grid' ! 1 - z_grid' ! 0;
                      edges = (z_grid' ! 0 - dz / 2) # map (\<lambda>z. z + dz / 2) z_grid'
                  in if length Pz' \<noteq> length z_grid' then Inl (ValueError Builtin)
                     else
                       (let cdf_edges = 0 # cumsum 0 (map (\<lambda>p. p * dz) Pz')
                        in if last cdf_edges = 0 then Inl ZeroDivision
                           else
                             (let cdf_edges' = map (\<lambda>c. c / last cdf_edges) cdf_edges
                              in case np_linspace 0 1 Nquantiles of
                                   Inl e \<Rightarrow> Inl e
                                 | Inr targets \<Rightarrow>
                                     np_interp targets cdf_edges' edges None None)))))"

section \<open>\<^verbatim>\<open>_batch_encode\<close>\<close>

text \<open>
  The input of one row: \<^verbatim>\<open>data['zvector']\<close> with \<^verbatim>\<open>data['PDF'][i]\<close> for the format
  \<^verbatim>\<open>'PDF_histogram'\<close>, or \<^verbatim>\<open>data['samples'][i]\<close> for the format \<^verbatim>\<open>'samples'\<close>.
  A batch is the list of its rows; in the source all rows of a batch have one format and
  share the grid.
\<close>

datatype row = PDF_histogram "rat list" "rat list" | Samples "sample list"

fun row_valid :: "row \<Rightarrow> bool" where
  "row_valid (PDF_histogram zvector Pz) = (sum_list Pz > 0)"
| "row_valid (Samples samples) = list_all isfinite samples"

fun row_quantiles :: "row \<Rightarrow> int \<Rightarrow> error + rat list" where
  "row_quantiles (PDF_histogram zvector Pz) Nquantiles = binned_to_quantiles zvector Pz Nquantiles"
| "row_quantiles (Samples samples) Nquantiles = samples_to_quantiles samples Nquantiles"

text \<open>
  The \<^verbatim>\<open>while True\<close> loop of one row. Its state is \<open>Nquantiles\<close> and \<open>lastgood\<close>;
  \<open>iterations\<close> counts the passes through the loop body (it is not in the source). An
  exception of the extractor, and an exception of \<^verbatim>\<open>encode_quantiles\<close> other than a
  ValueError, leave the loop. A pass in which neither \<^verbatim>\<open>payload_length < packetsize-5\<close>
  nor \<^verbatim>\<open>payload_length == packetsize-5\<close> holds starts the next pass in the same state.
  The result \<open>None\<close> is a loop that runs forever.
\<close>

partial_function (option) row_search ::
  "row \<Rightarrow> int \<Rightarrow> rat option \<Rightarrow> bool \<Rightarrow> int \<Rightarrow> byte list option \<Rightarrow> nat
     \<Rightarrow> ((error + byte list) \<times> nat) option" where
  "row_search r packetsize tolerance validate Nquantiles lastgood iterations =
     (case row_quantiles r Nquantiles of
        Inl e \<Rightarrow> Some (Inl e, Suc iterations)
      | Inr quantiles \<Rightarrow>
          (case encode_quantiles quantiles packetsize validate tolerance of
             Inl e \<Rightarrow>
               (case e of
                  ValueError _ \<Rightarrow>
                    (case lastgood of
                       Some packet \<Rightarrow> Some (Inr packet, Suc iterations)
                     | None \<Rightarrow>
                         row_search r packetsize tolerance validate (Nquantiles - 2) None
                           (Suc iterations))
                | _ \<Rightarrow> Some (Inl e, Suc iterations))
           | Inr (payload_length, packet) \<Rightarrow>
               if payload_length < packetsize - 5 then
                 row_search r packetsize tolerance validate (Nquantiles + 2) (Some packet)
                   (Suc iterations)
               else if payload_length = packetsize - 5 then Some (Inr packet, Suc iterations)
               else
                 row_search r packetsize tolerance validate Nquantiles lastgood
                   (Suc iterations)))"

declare row_search.simps [code]

text \<open>
  \<^verbatim>\<open>np.frombuffer(packet, dtype='>i4')\<close>: four bytes to one big-endian 32-bit integer;
  a buffer whose size is not a multiple of four raises ValueError.
\<close>

fun frombuffer :: "byte list \<Rightarrow> error + 32 word list" where
  "frombuffer [] = Inr []"
| "frombuffer (a # b # c # d # rest) =
     (case frombuffer rest of
        Inl e \<Rightarrow> Inl e
      | Inr ws \<Rightarrow>
          Inr (word_of_int (((uint a * 256 + uint b) * 256 + uint c) * 256 + uint d) # ws))"
| "frombuffer _ = Inl (ValueError Builtin)"

text \<open>
  \<^verbatim>\<open>int32col[i].tobytes()\<close> on an array of the dtype \<^verbatim>\<open>'>i4'\<close> that
  \<^verbatim>\<open>_batch_encode\<close> returns: the four bytes of each integer, the high byte first.
\<close>

fun tobytes :: "32 word list \<Rightarrow> byte list" where
  "tobytes [] = []"
| "tobytes (w # ws) =
     word_of_int (uint w div 16777216) # word_of_int (uint w div 65536 mod 256)
     # word_of_int (uint w div 256 mod 256) # word_of_int (uint w mod 256) # tobytes ws"

text \<open>
  The loop \<^verbatim>\<open>for i in range(len(valid))\<close> over the rows: a row that is not valid keeps
  the zeros of \<^verbatim>\<open>np.zeros((len(valid), packetsize//4))\<close>; an exception in a row ends the
  whole call. The assignment \<^verbatim>\<open>int32col[i] = ...\<close> raises ValueError when the lengths
  differ.
\<close>

fun batch_rows ::
  "row list \<Rightarrow> int \<Rightarrow> int \<Rightarrow> rat option \<Rightarrow> bool \<Rightarrow> (error + 32 word list list) option" where
  "batch_rows [] ini_quantiles packetsize tolerance validate = Some (Inr [])"
| "batch_rows (r # rs) ini_quantiles packetsize tolerance validate =
     (if \<not> row_valid r then
        (case batch_rows rs ini_quantiles packetsize tolerance validate of
           None \<Rightarrow> None
         | Some (Inl e) \<Rightarrow> Some (Inl e)
         | Some (Inr rows) \<Rightarrow> Some (Inr (replicate (nat (packetsize div 4)) 0 # rows)))
      else
        (case row_search r packetsize tolerance validate ini_quantiles None 0 of
           None \<Rightarrow> None
         | Some (Inl e, _) \<Rightarrow> Some (Inl e)
         | Some (Inr packet, _) \<Rightarrow>
             (case frombuffer packet of
                Inl e \<Rightarrow> Some (Inl e)
              | Inr ws \<Rightarrow>
                  if length ws \<noteq> nat (packetsize div 4) then Some (Inl (ValueError Builtin))
                  else
                    (case batch_rows rs ini_quantiles packetsize tolerance validate of
                       None \<Rightarrow> None
                     | Some (Inl e) \<Rightarrow> Some (Inl e)
                     | Some (Inr rows) \<Rightarrow> Some (Inr (ws # rows))))))"

text \<open>
  \<^verbatim>\<open>_batch_encode(data, ini_quantiles, packetsize, tolerance, validate)\<close> on the rows of
  \<open>data\<close>. \<^verbatim>\<open>np.zeros\<close> raises ValueError on a negative dimension.
\<close>

definition batch_encode ::
  "row list \<Rightarrow> int \<Rightarrow> int \<Rightarrow> rat option \<Rightarrow> bool \<Rightarrow> (error + 32 word list list) option" where
  "batch_encode data ini_quantiles packetsize tolerance validate =
     (if packetsize mod 4 \<noteq> 0 then Some (Inl (ValueError BadPacketsize))
      else if packetsize - ini_quantiles < 3 then Some (Inl (ValueError BadIniQuantiles))
      else if packetsize div 4 < 0 then Some (Inl (ValueError Builtin))
      else batch_rows data ini_quantiles packetsize tolerance validate)"

section \<open>\<^verbatim>\<open>quantiles_to_binned\<close>\<close>

text \<open>
  \<^verbatim>\<open>np.arange(start, stop, step)\<close> on floats: \<open>ceil((stop - start) / step)\<close> points,
  none when that is not positive; with a zero step the division for the length raises
  ZeroDivisionError.
\<close>

definition np_arange :: "rat \<Rightarrow> rat \<Rightarrow> rat \<Rightarrow> error + rat list" where
  "np_arange start stop step =
     (if step = 0 then Inl ZeroDivision
      else Inr (map (\<lambda>i. start + of_nat i * step) [0..<nat \<lceil>(stop - start) / step\<rceil>]))"

text \<open>
  The grid creation of \<^verbatim>\<open>quantiles_to_binned\<close>: the grid and the value of \<open>dz\<close>
  after it (still \<open>None\<close> when the grid comes from \<open>Nbins\<close>). \<^verbatim>\<open>zq[0]\<close> and
  \<^verbatim>\<open>zq[-1]\<close> are read only where \<open>z_min\<close>, respectively \<open>z_max\<close>, is \<open>None\<close>.
\<close>

definition make_grid ::
  "rat list \<Rightarrow> rat option \<Rightarrow> int option \<Rightarrow> rat option \<Rightarrow> rat option \<Rightarrow> rat list option
     \<Rightarrow> error + (rat list \<times> rat option)" where
  "make_grid zq dz Nbins z_min z_max zvector =
     (case zvector of
        Some zv \<Rightarrow>
          if length zv < 2 then Inl IndexError else Inr (zv, Some (zv ! 1 - zv ! 0))
      | None \<Rightarrow>
          if (z_min = None \<or> z_max = None) \<and> zq = [] then Inl IndexError
          else
            (let range_min = (case z_min of None \<Rightarrow> hd zq | Some v \<Rightarrow> v);
                 range_max = (case z_max of None \<Rightarrow> last zq | Some v \<Rightarrow> v)
             in case Nbins of
                  Some nb \<Rightarrow>
                    (let range_min' = (if range_min = range_max then range_min - 1 / 100
                                       else range_min);
                         range_max' = (if range_min = range_max then range_max + 1 / 100
                                       else range_max)
                     in case np_linspace range_min' range_max' nb of
                          Inl e \<Rightarrow> Inl e
                        | Inr z_grid \<Rightarrow> Inr (z_grid, dz))
                | None \<Rightarrow>
                    (case dz of
                       Some d \<Rightarrow>
                         (let range_min' = (if z_min = None
                                            then d * of_int \<lfloor>hd zq / d\<rfloor> else range_min);
                              range_max' = (if z_max = None
                                            then d * of_int \<lceil>last zq / d\<rceil> else range_max)
                          in case np_arange range_min' (range_max' + d / 2) d of
                               Inl e \<Rightarrow> Inl e
                             | Inr z_grid \<Rightarrow> Inr (z_grid, dz))
                     | None \<Rightarrow> Inl (ValueError BadArguments))))"

text \<open>
  The spline branch. \<open>spline\<close> stands for \<^verbatim>\<open>_monotone_natural_spline(Xout, X, Y)\<close>,
  which evaluates scipy's interpolators. The edges inside \<open>[zq[0], zq[-1]]\<close> take the
  values \<open>vals\<close> in order, the others 1 above \<^verbatim>\<open>zq[-1]\<close> and 0 otherwise.
\<close>

fun scatter_inside :: "rat \<Rightarrow> rat \<Rightarrow> rat list \<Rightarrow> rat list \<Rightarrow> rat list" where
  "scatter_inside lo hi [] vals = []"
| "scatter_inside lo hi (e # es) vals =
     (if lo \<le> e \<and> e \<le> hi then
        (case vals of
           [] \<Rightarrow> 0 # scatter_inside lo hi es []
         | v # vs \<Rightarrow> v # scatter_inside lo hi es vs)
      else (if hi < e then 1 else 0) # scatter_inside lo hi es vals)"

definition spline_cdf ::
  "(rat list \<Rightarrow> rat list \<Rightarrow> rat list \<Rightarrow> error + rat list) \<Rightarrow> rat list \<Rightarrow> rat list \<Rightarrow> rat list
     \<Rightarrow> error + rat list" where
  "spline_cdf spline edges zq Fq =
     (let inside = filter (\<lambda>e. hd zq \<le> e \<and> e \<le> last zq) edges
      in case spline inside zq Fq of
           Inl e \<Rightarrow> Inl e
         | Inr F_inside \<Rightarrow>
             if F_inside \<noteq> [] \<and> last F_inside > 0 then
               (if length F_inside \<noteq> length inside then Inl (ValueError Builtin)
                else Inr (scatter_inside (hd zq) (last zq) edges
                            (map (\<lambda>f. f / last F_inside) F_inside)))
             else Inr (scatter_inside (hd zq) (last zq) edges []))"

text \<open>
  The last steps: \<^verbatim>\<open>pdf = F_grid[1:] - F_grid[:-1]\<close>,
  \<^verbatim>\<open>pdf_sum = np.sum(pdf * dz_eff)\<close>, and the division by \<open>pdf_sum\<close> only
  \<^verbatim>\<open>if pdf_sum > 0\<close>.
\<close>

definition differences :: "rat list \<Rightarrow> rat list" where
  "differences F_grid = map2 (\<lambda>a b. a - b) (tl F_grid) (butlast F_grid)"

definition mass :: "rat list \<Rightarrow> rat \<Rightarrow> rat" where
  "mass pdf dz_eff = sum_list (map (\<lambda>p. p * dz_eff) pdf)"

definition normalise :: "rat list \<Rightarrow> rat \<Rightarrow> rat list" where
  "normalise pdf dz_eff =
     (let pdf_sum = mass pdf dz_eff
      in if pdf_sum > 0 then map (\<lambda>p. p / pdf_sum) pdf else pdf)"

definition dz_eff_of :: "rat list \<Rightarrow> rat" where
  "dz_eff_of z_grid = (if length z_grid > 1 then z_grid ! 1 - z_grid ! 0 else 0)"

text \<open>The grid is returned with the densities only when it was generated here.\<close>

datatype binned = GridAndPdf "rat list" "rat list" | PdfOnly "rat list"

fun pdf_of :: "binned \<Rightarrow> rat list" where
  "pdf_of (GridAndPdf z_grid pdf) = pdf"
| "pdf_of (PdfOnly pdf) = pdf"

text \<open>
  The interpolated CDF at the bin edges: \<^verbatim>\<open>Fq = np.linspace(0.0, 1.0, M)\<close>, the edges
  half a spacing around the grid points, and the dispatch on \<open>method\<close>.
\<close>

definition grid_cdf ::
  "(rat list \<Rightarrow> rat list \<Rightarrow> rat list \<Rightarrow> error + rat list) \<Rightarrow> rat list \<Rightarrow> rat list \<Rightarrow> string
     \<Rightarrow> error + rat list" where
  "grid_cdf spline zq z_grid method =
     (case np_linspace 0 1 (int (length zq)) of
        Inl e \<Rightarrow> Inl e
      | Inr Fq \<Rightarrow>
          (let dz_eff = dz_eff_of z_grid;
               edges = (hd z_grid - dz_eff / 2) # map (\<lambda>z. z + dz_eff / 2) z_grid
           in if method = ''linear'' then np_interp edges zq Fq (Some 0) (Some 1)
              else if method = ''spline'' then spline_cdf spline edges zq Fq
              else Inl (ValueError UnknownMethod)))"

text \<open>
  \<^verbatim>\<open>quantiles_to_binned(z_quantiles, dz, Nbins, z_min, z_max, zvector, method,
  force_range)\<close>. In the range check \<^verbatim>\<open>zq[0]\<close> raises IndexError on an empty array
  and \<^verbatim>\<open>dz/2\<close> raises TypeError while \<open>dz\<close> is \<open>None\<close>; \<^verbatim>\<open>z_grid[0]\<close> raises
  IndexError on an empty grid. The warning printed under \<open>force_range\<close> is not modelled.
\<close>

definition quantiles_to_binned ::
  "(rat list \<Rightarrow> rat list \<Rightarrow> rat list \<Rightarrow> error + rat list) \<Rightarrow> rat list \<Rightarrow> rat option
     \<Rightarrow> int option \<Rightarrow> rat option \<Rightarrow> rat option \<Rightarrow> rat list option \<Rightarrow> string \<Rightarrow> bool
     \<Rightarrow> error + binned" where
  "quantiles_to_binned spline zq dz Nbins z_min z_max zvector method force_range =
     (if force_range \<and> zvector = None \<and> z_min = None \<and> z_max = None
      then Inl (ValueError BadArguments)
      else if zvector \<noteq> None \<and> (dz \<noteq> None \<or> Nbins \<noteq> None) then Inl (ValueError BadArguments)
      else if dz \<noteq> None \<and> Nbins \<noteq> None then Inl (ValueError BadArguments)
      else
        (case make_grid zq dz Nbins z_min z_max zvector of
           Inl e \<Rightarrow> Inl e
         | Inr (z_grid, dz') \<Rightarrow>
             if zq = [] then Inl IndexError
             else
               (case dz' of
                  None \<Rightarrow> Inl TypeError
                | Some d \<Rightarrow>
                    (let eps = 1 / 10000000000;
                         zmin_q = hd zq + d / 2 + eps;
                         zmax_q = last zq - d / 2 - eps
                     in if z_grid = [] then Inl IndexError
                        else if (zmin_q < hd z_grid \<or> zmax_q > last z_grid) \<and> \<not> force_range
                        then Inl (ValueError RangeExceeded)
                        else
                          (case grid_cdf spline zq z_grid method of
                             Inl e \<Rightarrow> Inl e
                           | Inr F_grid \<Rightarrow>
                               (let pdf = normalise (differences F_grid) (dz_eff_of z_grid)
                                in if zvector = None then Inr (GridAndPdf z_grid pdf)
                                   else Inr (PdfOnly pdf)))))))"

section \<open>\<^verbatim>\<open>decode_to_samples\<close>\<close>

text \<open>
  \<^verbatim>\<open>quantiles_to_samples(z_quantiles, Nsamples, method)\<close>, with the array \<open>u\<close> of
  uniform draws as an argument. With a method that is neither \<^verbatim>\<open>'linear'\<close> nor
  \<^verbatim>\<open>'spline'\<close> the name \<^verbatim>\<open>samples\<close> is unbound at the return.
\<close>

definition quantiles_to_samples ::
  "(rat list \<Rightarrow> rat list \<Rightarrow> rat list \<Rightarrow> error + rat list) \<Rightarrow> rat list \<Rightarrow> rat list \<Rightarrow> string
     \<Rightarrow> error + rat list" where
  "quantiles_to_samples spline zq u method =
     (case np_linspace 0 1 (int (length zq)) of
        Inl e \<Rightarrow> Inl e
      | Inr Fq \<Rightarrow>
          if method = ''linear'' then np_interp u Fq zq None None
          else if method = ''spline'' then spline u Fq zq
          else Inl NameError)"

text \<open>\<^verbatim>\<open>np.any(int32col[i] != 0)\<close>.\<close>

definition any_nonzero :: "32 word list \<Rightarrow> bool" where
  "any_nonzero ws = list_ex (\<lambda>w. w \<noteq> 0) ws"

text \<open>
  The loop over the sources. \<open>draw i k\<close> is the \<open>k\<close>-th uniform draw made for the row
  \<open>i\<close>; a row that is all zero keeps the NaN it was filled with. An exception of
  \<^verbatim>\<open>decode_quantiles\<close> leaves the loop as it is, a ValueError of
  \<^verbatim>\<open>quantiles_to_samples\<close> is raised again as a ValueError, and the assignment to
  \<^verbatim>\<open>samples[i]\<close> raises ValueError when the lengths differ.
\<close>

fun fill_samples ::
  "(rat list \<Rightarrow> rat list \<Rightarrow> rat list \<Rightarrow> error + rat list) \<Rightarrow> (nat \<Rightarrow> nat \<Rightarrow> rat) \<Rightarrow> nat
     \<Rightarrow> 32 word list list \<Rightarrow> nat \<Rightarrow> string \<Rightarrow> error + sample list list" where
  "fill_samples spline draw i [] Nsamples method = Inr []"
| "fill_samples spline draw i (ws # rest) Nsamples method =
     (case (if any_nonzero ws then
              (case decode_quantiles (tobytes ws) of
                 Inl e \<Rightarrow> Inl e
               | Inr qrecovered \<Rightarrow>
                   (case quantiles_to_samples spline qrecovered
                           (map (draw i) [0..<Nsamples]) method of
                      Inl e \<Rightarrow> Inl e
                    | Inr s \<Rightarrow>
                        if length s \<noteq> Nsamples then Inl (ValueError Builtin)
                        else Inr (map Finite s)))
            else Inr (replicate Nsamples NonFinite)) of
        Inl e \<Rightarrow> Inl e
      | Inr row_samples \<Rightarrow>
          (case fill_samples spline draw (Suc i) rest Nsamples method of
             Inl e \<Rightarrow> Inl e
           | Inr rows \<Rightarrow> Inr (row_samples # rows)))"

text \<open>
  \<^verbatim>\<open>decode_to_samples(int32col, Nsamples, method)\<close>. \<^verbatim>\<open>np.full\<close> raises TypeError on
  the default \<^verbatim>\<open>Nsamples=None\<close> and ValueError on a negative one. The function ends
  with \<^verbatim>\<open>return PDF\<close>, and \<^verbatim>\<open>PDF\<close> is bound neither in the function nor in the module
  \<^verbatim>\<open>decode.py\<close>: the statement raises NameError, and the filled array \<open>samples\<close> is
  dropped.
\<close>

definition decode_to_samples ::
  "(rat list \<Rightarrow> rat list \<Rightarrow> rat list \<Rightarrow> error + rat list) \<Rightarrow> (nat \<Rightarrow> nat \<Rightarrow> rat)
     \<Rightarrow> 32 word list list \<Rightarrow> int option \<Rightarrow> string \<Rightarrow> error + sample list list" where
  "decode_to_samples spline draw int32col Nsamples method =
     (case Nsamples of
        None \<Rightarrow> Inl TypeError
      | Some n \<Rightarrow>
          if n < 0 then Inl (ValueError Builtin)
          else
            (case fill_samples spline draw 0 int32col (nat n) method of
               Inl e \<Rightarrow> Inl e
             | Inr samples \<Rightarrow> Inl NameError))"

section \<open>Properties of \<^verbatim>\<open>decode_quantiles\<close>\<close>

lemma maximum_replicate_zero: "maximum m (replicate n 0) = m"
  by (induction n arbitrary: m) simp_all

lemma decode_walk_stop:
  "b = 0 \<and> maximum b rest = 0 \<Longrightarrow> decode_walk eps prev (b # rest) = Inr []"
  by (subst decode_walk.simps) (rule if_P)

lemma decode_walk_byte:
  assumes "\<not> (b = 0 \<and> maximum b rest = 0)" and "b < 255"
  shows "decode_walk eps prev (b # rest) =
     (case decode_walk eps (prev + of_int (uint b) * eps) rest of
        Inl e \<Rightarrow> Inl e
      | Inr zs \<Rightarrow> Inr ((prev + of_int (uint b) * eps) # zs))"
  by (subst decode_walk.simps) (simp only: assms if_False if_True Let_def)

lemma decode_walk_escape:
  assumes "\<not> b < 255"
  shows "decode_walk eps prev (b # hi # lo # rest) =
     (case decode_walk eps (prev + of_int (unpack_be_H hi lo) * eps) rest of
        Inl e \<Rightarrow> Inl e
      | Inr zs \<Rightarrow> Inr ((prev + of_int (unpack_be_H hi lo) * eps) # zs))"
proof -
  from assms have "b \<noteq> 0" by auto
  then show ?thesis
    by (subst decode_walk.simps) (simp only: assms if_False Let_def list.case simp_thms)
qed

lemma decode_walk_truncated:
  assumes "\<not> b < 255" and "length rest < 2"
  shows "decode_walk eps prev (b # rest) = Inl StructError"
proof -
  from assms(1) have b: "b \<noteq> 0" by auto
  from assms(2) consider "rest = []" | x where "rest = [x]"
    by (cases rest; cases "tl rest") auto
  then show ?thesis
  proof cases
    case 1
    show ?thesis unfolding 1
      by (subst decode_walk.simps) (simp only: assms(1) b if_False list.case simp_thms)
  next
    case 2
    show ?thesis unfolding 2
      by (subst decode_walk.simps) (simp only: assms(1) b if_False list.case simp_thms)
  qed
qed

lemma delta_nonneg: "(0::rat) \<le> of_int (uint (b::byte))"
  by (simp only: of_int_0_le_iff) simp

lemma unpack_be_H_nonneg: "0 \<le> unpack_be_H hi lo"
  by (simp add: unpack_be_H_def)

lemma decode_walk_zeros: "decode_walk eps prev (replicate n 0) = Inr []"
  by (cases n) (simp_all add: maximum_replicate_zero)

text \<open>Every value the loop appends is at least the one before it.\<close>

lemma decode_walk_sorted:
  "decode_walk eps prev bs = Inr zs \<Longrightarrow> 0 \<le> eps \<Longrightarrow> sorted (prev # zs)"
proof (induction eps prev bs arbitrary: zs rule: decode_walk.induct)
  case (1 eps prev)
  then show ?case by simp
next
  case (2 eps prev b rest)
  show ?case
  proof (cases "b = 0 \<and> maximum b rest = 0")
    case True
    from 2(3) have "zs = []"
      unfolding decode_walk_stop [OF True] by simp
    then show ?thesis by simp
  next
    case stop: False
    show ?thesis
    proof (cases "b < 255")
      case True
      define z where "z = prev + of_int (uint b) * eps"
      from 2(3) obtain zs' where
        w: "decode_walk eps z rest = Inr zs'" and zs: "zs = z # zs'"
        unfolding decode_walk_byte [OF stop True] z_def [symmetric]
        by (cases "decode_walk eps z rest") auto
      have "sorted (z # zs')"
        using 2(1) [OF stop True z_def w 2(4)] .
      moreover have "prev \<le> z"
        using 2(4) delta_nonneg [of b]
        by (simp only: z_def le_add_same_cancel1 mult_nonneg_nonneg)
      ultimately show ?thesis
        using zs by auto
    next
      case False
      have "\<not> length rest < 2"
        using 2(3) decode_walk_truncated [OF False, of rest eps prev] by auto
      then obtain hi lo rest' where rest: "rest = hi # lo # rest'"
        by (cases rest; cases "tl rest") auto
      define z where "z = prev + of_int (unpack_be_H hi lo) * eps"
      from 2(3) obtain zs' where
        w: "decode_walk eps z rest' = Inr zs'" and zs: "zs = z # zs'"
        unfolding rest decode_walk_escape [OF False] z_def [symmetric]
        by (cases "decode_walk eps z rest'") auto
      have "sorted (z # zs')"
        using 2(2) [OF stop False rest refl z_def w 2(4)] .
      moreover have "prev \<le> z"
        using 2(4) unpack_be_H_nonneg [of hi lo]
        by (simp only: z_def le_add_same_cancel1 mult_nonneg_nonneg of_int_0_le_iff)
      ultimately show ?thesis
        using zs by auto
    qed
  qed
qed

lemma sorted_le_last:
  "sorted xs \<Longrightarrow> x \<in> set xs \<Longrightarrow> x \<le> last (xs :: rat list)"
  by (induction xs) auto

lemma decode_quantiles_Inr:
  assumes "decode_quantiles packet = Inr zs"
  obtains eps_int b1 b2 b3 b4 payload ds where
    "packet = eps_int # b1 # b2 # b3 # b4 # payload"
    "decode_walk (of_int (uint eps_int) * (1 / 100000)) (endpoint (unpack_le_H b1 b2)) payload
       = Inr ds"
    "zs = endpoint (unpack_le_H b1 b2) # ds @ [endpoint (unpack_le_H b3 b4)]"
proof -
  from assms obtain eps_int b1 b2 b3 b4 payload where
    p: "packet = eps_int # b1 # b2 # b3 # b4 # payload"
    by (auto simp: decode_quantiles_def split: list.splits)
  from assms obtain ds where
    "decode_walk (of_int (uint eps_int) * (1 / 100000)) (endpoint (unpack_le_H b1 b2)) payload
       = Inr ds"
    "zs = endpoint (unpack_le_H b1 b2) # ds @ [endpoint (unpack_le_H b3 b4)]"
    unfolding p decode_quantiles_def Let_def list.case
    by (cases "decode_walk (of_int (uint eps_int) * (1 / 100000))
          (endpoint (unpack_le_H b1 b2)) payload") auto
  with p show thesis by (rule that)
qed

text \<open>
  Claim C8. A packet with \<open>eps_code = 1\<close>, any two endpoint codes, the payload
  \<open>[10, 255, 0x01, 0x2C, 5]\<close> and any number of zero bytes after it decodes to five
  values: \<open>zmin\<close>, three interior values whose successive increments are 10, 300 and 5
  units of \<open>1e-5\<close> (0.0001, 0.003 and 0.00005), and \<open>zmax\<close>.
\<close>

theorem decode_example:
  "decode_quantiles ([1, a, b, c, d, 10, 255, 1, 44, 5] @ replicate n 0) =
     (let zmin = endpoint (unpack_le_H a b);
          zmax = endpoint (unpack_le_H c d)
      in Inr [zmin,
              zmin + 10 / 100000,
              zmin + 10 / 100000 + 300 / 100000,
              zmin + 10 / 100000 + 300 / 100000 + 5 / 100000,
              zmax])"
  by (simp add: decode_quantiles_def decode_walk_zeros unpack_be_H_def Let_def)

text \<open>
  Claim C4, as stated, fails: the six-byte packet with \<open>eps_code = 1\<close>, both endpoint
  codes 0 and the single delta 10 decodes to \<open>[-0.01, -0.0099, -0.01]\<close>, whose appended
  \<open>zmax\<close> lies below the accumulated value before it.
\<close>

theorem decode_monotone_counterexample:
  "5 \<le> length [1, 0, 0, 0, 0, 10 :: byte] \<and>
   decode_quantiles [1, 0, 0, 0, 0, 10] = Inr [- (1 / 100), - (99 / 10000), - (1 / 100)] \<and>
   \<not> sorted [- (1 / 100), - (99 / 10000), - (1 / 100) :: rat]"
  by (simp add: decode_quantiles_def unpack_le_H_def Let_def endpoint_def)

text \<open>
  Claim C4, amended. Whenever \<^verbatim>\<open>decode_quantiles\<close> returns, the array without its
  last element (\<open>zmin\<close> and the accumulated deltas) is non-decreasing, and the whole
  array is non-decreasing exactly when the header's \<open>zmax\<close> is not below the last
  accumulated value.
\<close>

theorem decode_monotone_amended:
  assumes "decode_quantiles packet = Inr zs"
  shows "sorted (butlast zs) \<and> (sorted zs \<longleftrightarrow> last (butlast zs) \<le> last zs)"
proof -
  from assms obtain eps_int b1 b2 b3 b4 payload ds where
    "packet = eps_int # b1 # b2 # b3 # b4 # payload" and
    w: "decode_walk (of_int (uint eps_int) * (1 / 100000)) (endpoint (unpack_le_H b1 b2)) payload
       = Inr ds"
    and zs: "zs = endpoint (unpack_le_H b1 b2) # ds @ [endpoint (unpack_le_H b3 b4)]"
    by (rule decode_quantiles_Inr)
  define zmin where "zmin = endpoint (unpack_le_H b1 b2)"
  define zmax where "zmax = endpoint (unpack_le_H b3 b4)"
  have "(0::rat) \<le> of_int (uint eps_int) * (1 / 100000)"
    using delta_nonneg [of eps_int] by simp
  then have s: "sorted (zmin # ds)"
    using decode_walk_sorted [OF w] by (simp add: zmin_def)
  have zs': "zs = (zmin # ds) @ [zmax]"
    by (simp add: zs zmin_def zmax_def)
  have "sorted ((zmin # ds) @ [zmax]) \<longleftrightarrow> last (zmin # ds) \<le> zmax"
  proof
    assume "sorted ((zmin # ds) @ [zmax])"
    then have "\<forall>x\<in>set (zmin # ds). x \<le> zmax"
      by (simp only: sorted_append) simp
    then show "last (zmin # ds) \<le> zmax"
      using last_in_set [of "zmin # ds"] by blast
  next
    assume l: "last (zmin # ds) \<le> zmax"
    have "x \<le> last (zmin # ds)" if "x \<in> set (zmin # ds)" for x
      using s that by (rule sorted_le_last)
    with l s show "sorted ((zmin # ds) @ [zmax])"
      by (simp only: sorted_append) force
  qed
  then show ?thesis
    using s unfolding zs' by (simp only: butlast_snoc last_snoc simp_thms)
qed

theorem decode_monotone_amended_witness:
  "decode_quantiles [1, 0, 0, 1, 0, 10, 255, 1, 44, 0] =
     Inr [- (1 / 100), - (99 / 10000), - (69 / 10000), - (98 / 10000)] \<and>
   sorted (butlast [- (1 / 100), - (99 / 10000), - (69 / 10000), - (98 / 10000) :: rat]) \<and>
   \<not> sorted [- (1 / 100), - (99 / 10000), - (69 / 10000), - (98 / 10000) :: rat]"
proof -
  have d: "decode_quantiles [1, 0, 0, 1, 0, 10, 255, 1, 44, 0] =
     Inr [- (1 / 100), - (99 / 10000), - (69 / 10000), - (98 / 10000)]"
    by (simp add: decode_quantiles_def unpack_le_H_def unpack_be_H_def Let_def endpoint_def)
  from decode_monotone_amended [OF d] show ?thesis
    using d by simp
qed

section \<open>Properties of \<^verbatim>\<open>encode_quantiles\<close>\<close>


lemma py_round_of_int: "py_round (of_int k) = k"
  by (simp add: py_round_def)

lemma uint_byte_of_int: "0 \<le> k \<Longrightarrow> k < 256 \<Longrightarrow> uint (word_of_int k :: byte) = k"
  by (simp add: uint_word_of_int take_bit_eq_mod)

lemma pack_le_H_Inr:
  assumes "pack_le_H x = Inr bs"
  obtains lo hi where "bs = [lo, hi]" "unpack_le_H lo hi = x" "0 \<le> x" "x \<le> 65535"
proof -
  from assms have r: "0 \<le> x" "x \<le> 65535"
    and bs: "bs = [word_of_int (x mod 256), word_of_int (x div 256)]"
    by (auto simp: pack_le_H_def split: if_splits)
  have "uint (word_of_int (x mod 256) :: byte) = x mod 256"
    by (rule uint_byte_of_int) simp_all
  moreover have "uint (word_of_int (x div 256) :: byte) = x div 256"
    using r by (intro uint_byte_of_int) auto
  ultimately have u: "unpack_le_H (word_of_int (x mod 256)) (word_of_int (x div 256)) = x"
    by (simp add: unpack_le_H_def)
  from that [OF bs u r] show thesis .
qed

lemma pack_be_H_Inr:
  assumes "pack_be_H x = Inr bs"
  obtains hi lo where "bs = [hi, lo]" "unpack_be_H hi lo = x" "0 \<le> x" "x \<le> 65535"
proof -
  from assms have r: "0 \<le> x" "x \<le> 65535"
    and bs: "bs = [word_of_int (x div 256), word_of_int (x mod 256)]"
    by (auto simp: pack_be_H_def split: if_splits)
  have "uint (word_of_int (x mod 256) :: byte) = x mod 256"
    by (rule uint_byte_of_int) simp_all
  moreover have "uint (word_of_int (x div 256) :: byte) = x div 256"
    using r by (intro uint_byte_of_int) auto
  ultimately have u: "unpack_be_H (word_of_int (x div 256)) (word_of_int (x mod 256)) = x"
    by (simp add: unpack_be_H_def)
  from that [OF bs u r] show thesis .
qed

lemma length_interior: "length (interior a) = length a - 2"
  by (simp add: interior_def)

lemma length_but_last_two: "length (but_last_two a) = length a - 2"
  by (simp add: but_last_two_def)

lemma py_index_short:
  "int (length xs) < k \<Longrightarrow> 0 < k \<Longrightarrow> py_index xs (- k) = Inl IndexError"
  by (simp add: py_index_def Let_def)

lemma choose_eps_short:
  assumes "int (length gaps) < k + 1" and "0 \<le> k"
  shows "choose_eps gaps k = Inl IndexError"
proof -
  have "py_index gaps (- (k + 1)) = Inl IndexError"
    using assms by (intro py_index_short) auto
  then show ?thesis
    by (simp add: choose_eps_def)
qed

text \<open>
  Claim C10. A quantile array of length \<open>M \<le> L - 3\<close> whose \<open>M - 2\<close> interior gaps
  are fewer than \<open>maxBigGaps + 1 = (L - (M + 3)) // 2 + 1\<close> makes
  \<^verbatim>\<open>encode_quantiles\<close> raise IndexError (at \<^verbatim>\<open>gaps[-max_big_gaps-1]\<close>, or already
  at \<^verbatim>\<open>quantiles[0]\<close> when the array is empty). It is not a ValueError: the search
  loop of \<^verbatim>\<open>_batch_encode\<close> does not catch it and ends with it.
\<close>

theorem encode_short_gaps_IndexError:
  assumes "int (length q) \<le> L - 3"
    and "int (length q) - 2 < (L - (int (length q) + 3)) div 2 + 1"
  shows "encode_quantiles q L v t = Inl IndexError \<and>
         (\<forall>r N lastgood n. row_quantiles r N = Inr q \<longrightarrow>
            row_search r L t v N lastgood n = Some (Inl IndexError, Suc n))"
proof -
  have e: "encode_quantiles q L v t = Inl IndexError"
  proof (cases "q = []")
    case True
    with assms(1) show ?thesis
      by (simp add: encode_quantiles_def)
  next
    case False
    define k where "k = (L - (int (length q) + 3)) div 2"
    define gaps where "gaps = sort (map2 (\<lambda>a b. a - b) (interior q) (but_last_two q))"
    have k: "0 \<le> k"
      using assms(1) by (simp add: k_def)
    have "int (length gaps) < k + 1"
      using assms(2) k by (simp add: gaps_def length_interior length_but_last_two k_def)
    then have "choose_eps gaps k = Inl IndexError"
      using k by (rule choose_eps_short)
    then show ?thesis
      using False assms(1) by (simp add: encode_quantiles_def Let_def gaps_def k_def)
  qed
  have "row_search r L t v N lastgood n = Some (Inl IndexError, Suc n)"
    if "row_quantiles r N = Inr q" for r N lastgood n
    using that e by (subst row_search.simps) simp
  with e show ?thesis by blast
qed

theorem encode_short_gaps_IndexError_witness:
  "int (length [0, 1 / 10 :: rat]) \<le> 80 - 3 \<and>
   int (length [0, 1 / 10 :: rat]) - 2 < (80 - (int (length [0, 1 / 10 :: rat]) + 3)) div 2 + 1 \<and>
   encode_quantiles [0, 1 / 10] 80 True (Some (1 / 1000)) = Inl IndexError \<and>
   row_quantiles (Samples [Finite 0, Finite (1 / 10)]) 2 = Inr [0, 1 / 10] \<and>
   row_search (Samples [Finite 0, Finite (1 / 10)]) 80 None False 2 None 0
     = Some (Inl IndexError, Suc 0)"
proof -
  have q: "row_quantiles (Samples [Finite 0, Finite (1 / 10)]) 2 = Inr [0, 1 / 10]"
    by code_simp
  from encode_short_gaps_IndexError [of "[0, 1 / 10]" 80 True "Some (1 / 1000)"]
  have "encode_quantiles [0, 1 / 10] 80 True (Some (1 / 1000)) = Inl IndexError"
    by simp
  moreover from encode_short_gaps_IndexError [of "[0, 1 / 10]" 80 False None] q
  have "row_search (Samples [Finite 0, Finite (1 / 10)]) 80 None False 2 None 0
     = Some (Inl IndexError, Suc 0)"
    by simp
  ultimately show ?thesis using q by simp
qed

lemma max_code:
  "max (1 / 100000) (max ((1 / 100000) * of_int a) ((1 / 100000) * of_int b)) * 100000
     = (of_int (max 1 (max a b)) :: rat)"
  by (simp add: max_def)

lemma choose_eps_Inr:
  assumes "choose_eps gaps k = Inr eps"
  obtains c where "1 \<le> c" "c \<le> 255" "eps * 100000 = of_int c" "py_round (eps * 100000) = c"
proof -
  from assms obtain g where g: "py_index gaps (- k - 1) = Inr g"
    by (auto simp: choose_eps_def split: sum.splits)
  define a where "a = \<lceil>100000 * g / 254\<rceil>"
  define b where "b = \<lceil>100000 * last gaps / (256 ^ 2 - 1)\<rceil>"
  define c where "c = max 1 (max a b)"
  from assms g have eps: "eps = max (1 / 100000) (max ((1 / 100000) * of_int a) ((1 / 100000) * of_int b))"
    and r: "\<not> py_round (eps * 100000) > 255"
    by (auto simp: choose_eps_def Let_def a_def b_def split: if_splits)
  have e: "eps * 100000 = of_int c"
    unfolding eps c_def by (rule max_code)
  then have p: "py_round (eps * 100000) = c"
    by (simp only: py_round_of_int)
  have "1 \<le> c" by (simp add: c_def)
  moreover have "c \<le> 255" using r p by simp
  ultimately show thesis using e p by (rule that)
qed

text \<open>
  Claim C2, as stated, fails. For the quantiles \<open>[0, 0.5, 200, 201]\<close> and a 9-byte
  packet, \<open>maxBigGaps = 1\<close> and the sorted gaps are \<open>[0.5, 199.5]\<close>: the threshold is
  \<open>0.5\<close>, step 4 passes with \<open>eps_min = 197e-5\<close>, but the two-byte bound of the largest gap
  is \<open>eps_min2 = 305e-5\<close>, and the check after the maximum raises.
\<close>

theorem eps_code_counterexample:
  "py_index (sort [1 / 2, 399 / 2 :: rat]) (- 1 - 1) = Inr (1 / 2) \<and>
   \<not> (1 / 100000) * of_int \<lceil>100000 * (1 / 2 :: rat) / 254\<rceil> > (255 / 100000 :: rat) \<and>
   choose_eps (sort [1 / 2, 399 / 2]) 1 = Inl (ValueError EpsTooLarge) \<and>
   encode_quantiles [0, 1 / 2, 200, 201] 9 True (Some (1 / 1000)) = Inl (ValueError EpsTooLarge)"
  by code_simp

text \<open>
  Claim C2, amended. When the lookup of the threshold succeeds and step 4 passes, the final
  \<open>eps\<close> has a rounded code of at most 255 if the largest gap is at most
  \<open>167.11425 = 255 * 65535 * 1e-5\<close>; if the largest gap exceeds that, the check after
  the maximum raises.
\<close>

theorem eps_code_amended:
  assumes "py_index gaps (- k - 1) = Inr gapThreshold"
    and "(1 / 100000) * of_int \<lceil>100000 * gapThreshold / 254\<rceil> \<le> (255 / 100000 :: rat)"
  shows "(last gaps \<le> 16711425 / 100000 \<longrightarrow>
            (\<exists>eps. choose_eps gaps k = Inr eps \<and> py_round (eps * 100000) \<le> 255)) \<and>
         (last gaps > 16711425 / 100000 \<longrightarrow>
            choose_eps gaps k = Inl (ValueError EpsTooLarge))"
proof -
  define a where "a = \<lceil>100000 * gapThreshold / 254\<rceil>"
  define b where "b = \<lceil>100000 * last gaps / (256 ^ 2 - 1)\<rceil>"
  define eps :: rat where
    "eps = max (1 / 100000) (max ((1 / 100000) * of_int a) ((1 / 100000) * of_int b))"
  have a: "a \<le> 255"
    using assms(2) by (simp add: a_def)
  have code: "py_round (eps * 100000) = max 1 (max a b)"
    unfolding eps_def max_code by (rule py_round_of_int)
  have ce: "choose_eps gaps k =
      (if py_round (eps * 100000) > 255 then Inl (ValueError EpsTooLarge) else Inr eps)"
    using assms by (simp add: choose_eps_def Let_def eps_def a_def b_def)
  have b: "b \<le> 255 \<longleftrightarrow> last gaps \<le> 16711425 / 100000"
    by (simp add: b_def ceiling_le_iff mult.commute)
  show ?thesis
  proof (intro conjI impI)
    assume "last gaps \<le> 16711425 / 100000"
    with b a have "py_round (eps * 100000) \<le> 255"
      by (simp add: code)
    then show "\<exists>eps. choose_eps gaps k = Inr eps \<and> py_round (eps * 100000) \<le> 255"
      by (simp add: ce)
  next
    assume "last gaps > 16711425 / 100000"
    with b have "py_round (eps * 100000) > 255"
      by (simp add: code)
    then show "choose_eps gaps k = Inl (ValueError EpsTooLarge)"
      by (simp add: ce)
  qed
qed

theorem eps_code_amended_witness:
  "py_index [1 / 10, 1 / 10, 1 / 10 :: rat] (- 2 - 1) = Inr (1 / 10) \<and>
   (1 / 100000) * of_int \<lceil>100000 * (1 / 10 :: rat) / 254\<rceil> \<le> (255 / 100000 :: rat) \<and>
   last [1 / 10, 1 / 10, 1 / 10 :: rat] \<le> 16711425 / 100000 \<and>
   (\<exists>eps. choose_eps [1 / 10, 1 / 10, 1 / 10] 2 = Inr eps \<and> py_round (eps * 100000) \<le> 255) \<and>
   py_index [1 / 2, 399 / 2 :: rat] (- 1 - 1) = Inr (1 / 2) \<and>
   (1 / 100000) * of_int \<lceil>100000 * (1 / 2 :: rat) / 254\<rceil> \<le> (255 / 100000 :: rat) \<and>
   last [1 / 2, 399 / 2 :: rat] > 16711425 / 100000 \<and>
   choose_eps [1 / 2, 399 / 2] 1 = Inl (ValueError EpsTooLarge)"
proof -
  have i: "py_index [1 / 10, 1 / 10, 1 / 10 :: rat] (- 2 - 1) = Inr (1 / 10)"
    by (simp add: py_index_def)
  have s: "(1 / 100000) * of_int \<lceil>100000 * (1 / 10 :: rat) / 254\<rceil> \<le> (255 / 100000 :: rat)"
    by simp
  have i': "py_index [1 / 2, 399 / 2 :: rat] (- 1 - 1) = Inr (1 / 2)"
    by (simp add: py_index_def)
  have s': "(1 / 100000) * of_int \<lceil>100000 * (1 / 2 :: rat) / 254\<rceil> \<le> (255 / 100000 :: rat)"
    by simp
  from eps_code_amended [OF i s] have
    "\<exists>eps. choose_eps [1 / 10, 1 / 10, 1 / 10] 2 = Inr eps \<and> py_round (eps * 100000) \<le> 255"
    by simp
  moreover from eps_code_amended [OF i' s'] have
    "choose_eps [1 / 2, 399 / 2] 1 = Inl (ValueError EpsTooLarge)"
    by simp
  ultimately show ?thesis
    using i s i' s' by simp
qed

text \<open>
  Claim C5, as stated, fails. For the quantiles
  \<open>[0.00019, 0.65549, 0.65649, 0.65749, 1.0]\<close> and a 12-byte packet, \<open>eps = 1e-5\<close> and
  \<open>zmin_rec = 0\<close>, so the first rounded delta is 65549: it lies outside \<open>0..254\<close>, yet
  no escape record is emitted, because \<^verbatim>\<open>struct.pack('>H', d)\<close> raises
  \<^verbatim>\<open>struct.error\<close> and \<^verbatim>\<open>encode_quantiles\<close> returns no packet.
\<close>

theorem delta_escape_counterexample:
  "\<not> (0 \<le> py_round ((65549 / 100000 - endpoint 50) / (1 / 100000)) \<and>
       py_round ((65549 / 100000 - endpoint 50) / (1 / 100000)) \<le> 254) \<and>
   delta_record (py_round ((65549 / 100000 - endpoint 50) / (1 / 100000))) = Inl StructError \<and>
   encode_quantiles [19 / 100000, 65549 / 100000, 65649 / 100000, 65749 / 100000, 1] 12
     True (Some (1 / 1000)) = Inl StructError"
  by code_simp

lemma delta_record_escape_iff:
  "(\<exists>hi lo. delta_record d = Inr [255, hi, lo]) \<longleftrightarrow> 255 \<le> d \<and> d \<le> 65535"
  by (auto simp: delta_record_def pack_be_H_def)

lemma delta_record_escape:
  assumes "delta_record d = Inr [255, hi, lo]"
  shows "unpack_be_H hi lo = d"
proof -
  from assms have r: "\<not> (0 \<le> d \<and> d \<le> 254)"
    by (auto simp: delta_record_def split: if_splits)
  with assms have "pack_be_H d = Inr [hi, lo]"
    by (auto simp: delta_record_def split: sum.splits)
  then show ?thesis
    by (elim pack_be_H_Inr) simp
qed

text \<open>
  Claim C5, amended. A three-byte escape record (255, then the big-endian unsigned 16-bit
  \<open>d\<close>) is emitted exactly when \<open>255 \<le> d \<le> 65535\<close>; for \<open>d < 0\<close> or \<open>d > 65535\<close>
  the encoder raises \<^verbatim>\<open>struct.error\<close>; and the decoding loop, at a marker 255
  followed by the two bytes of an emitted record, advances by exactly \<open>d * eps\<close>.
\<close>

theorem delta_escape_amended:
  "((\<exists>hi lo. delta_record d = Inr [255, hi, lo]) \<longleftrightarrow> 255 \<le> d \<and> d \<le> 65535) \<and>
   (d < 0 \<or> 65535 < d \<longrightarrow> delta_record d = Inl StructError) \<and>
   (\<forall>hi lo. delta_record d = Inr [255, hi, lo] \<longrightarrow>
      unpack_be_H hi lo = d \<and>
      decode_walk eps prev (255 # hi # lo # rest) =
        (case decode_walk eps (prev + of_int d * eps) rest of
           Inl e \<Rightarrow> Inl e
         | Inr zs \<Rightarrow> Inr ((prev + of_int d * eps) # zs)))"
proof (intro conjI allI impI)
  show "(\<exists>hi lo. delta_record d = Inr [255, hi, lo]) \<longleftrightarrow> 255 \<le> d \<and> d \<le> 65535"
    by (rule delta_record_escape_iff)
next
  assume "d < 0 \<or> 65535 < d"
  then show "delta_record d = Inl StructError"
    by (auto simp: delta_record_def pack_be_H_def)
next
  fix hi lo
  assume r: "delta_record d = Inr [255, hi, lo]"
  then show u: "unpack_be_H hi lo = d"
    by (rule delta_record_escape)
  have "\<not> (255 :: byte) < 255" by simp
  from decode_walk_escape [OF this, of eps prev hi lo rest]
  show "decode_walk eps prev (255 # hi # lo # rest) =
        (case decode_walk eps (prev + of_int d * eps) rest of
           Inl e \<Rightarrow> Inl e
         | Inr zs \<Rightarrow> Inr ((prev + of_int d * eps) # zs))"
    by (simp only: u)
qed

theorem delta_escape_amended_witness:
  "delta_record 300 = Inr [255, 1, 44] \<and> unpack_be_H 1 44 = 300 \<and>
   decode_walk (1 / 100000) 0 [255, 1, 44, 5] = Inr [300 / 100000, 305 / 100000] \<and>
   delta_record 65536 = Inl StructError \<and> delta_record (- 1) = Inl StructError"
proof -
  have r: "delta_record 300 = Inr [255, 1, 44]"
    by (simp add: delta_record_def pack_be_H_def)
  have t: "decode_walk (1 / 100000) (0 + of_int 300 * (1 / 100000)) [5] = Inr [305 / 100000]"
    by simp
  from delta_escape_amended [of 300 "1 / 100000" 0 "[5]"] r t
  have "unpack_be_H 1 44 = 300 \<and>
        decode_walk (1 / 100000) 0 [255, 1, 44, 5] = Inr [300 / 100000, 305 / 100000]"
    by simp
  moreover from delta_escape_amended [of 65536 0 0 "[]"]
  have "delta_record 65536 = Inl StructError" by simp
  moreover from delta_escape_amended [of "- 1" 0 0 "[]"]
  have "delta_record (- 1) = Inl StructError" by simp
  ultimately show ?thesis using r by simp
qed

lemma encode_quantiles_Inr:
  assumes "encode_quantiles q L v t = Inr (n, packet)"
  obtains eps payload bmin bmax where
    "q \<noteq> []" "int (length q) \<le> L - 3"
    "choose_eps (sort (map2 (\<lambda>a b. a - b) (interior q) (but_last_two q)))
       ((L - (int (length q) + 3)) div 2) = Inr eps"
    "build_payload eps (endpoint \<lfloor>endpoint_quotient (hd q)\<rfloor>) (interior q) = Inr payload"
    "n = int (length payload)" "n \<le> L - 5"
    "pack_le_H \<lfloor>endpoint_quotient (hd q)\<rfloor> = Inr bmin"
    "pack_le_H \<lceil>endpoint_quotient (last q)\<rceil> = Inr bmax"
    "packet = word_of_int (py_round (eps * 100000)) # bmin @ bmax @ payload
               @ replicate (nat (L - 5 - n)) 0"
    "v \<longrightarrow> validate_packet q packet t = Inr ()"
  using assms unfolding encode_quantiles_def Let_def
  by (auto split: if_splits sum.splits)

lemma validate_packet_Inr:
  assumes "validate_packet q packet (Some tol) = Inr ()"
  obtains zs where "decode_quantiles packet = Inr zs" "length zs = length q"
    "\<forall>x\<in>set (map2 (\<lambda>a b. a - b) (interior q) (interior zs)). \<bar>x\<bar> \<le> tol"
proof -
  from assms obtain zs where d: "decode_quantiles packet = Inr zs"
    by (auto simp: validate_packet_def split: sum.splits)
  define shift where "shift = map2 (\<lambda>a b. a - b) (interior q) (interior zs)"
  from assms d have l: "length zs = length q" and ne: "shift \<noteq> []"
    and m: "\<not> Max (set (map abs shift)) > tol"
    by (auto simp: validate_packet_def Let_def shift_def split: if_splits)
  have "\<bar>x\<bar> \<le> tol" if "x \<in> set shift" for x
  proof -
    from that have "\<bar>x\<bar> \<in> set (map abs shift)" by simp
    then have "\<bar>x\<bar> \<le> Max (set (map abs shift))"
      by (intro Max_ge) simp_all
    with m show ?thesis by simp
  qed
  then have "\<forall>x\<in>set shift. \<bar>x\<bar> \<le> tol" by blast
  with d l show thesis unfolding shift_def by (rule that)
qed

lemma interior_nth:
  assumes "0 < i" and "i < length a - 1"
  shows "interior a ! (i - 1) = a ! i"
proof -
  have "interior a ! (i - 1) = tl a ! (i - 1)"
    unfolding interior_def using assms by (intro nth_butlast) simp
  also have "\<dots> = a ! i"
    using assms by (simp add: nth_tl)
  finally show ?thesis .
qed

text \<open>The double quotient at the literals and at an endpoint on the grid.\<close>

lemma double_literals:
  "round_double (1 / 100) = double_0_01 \<and> round_double (2 / 10000) = double_0_0002"
  by code_simp

lemma endpoint_quotient_2:
  "endpoint_quotient 2 = 5525045929574399 / 549755813888 \<and> \<lfloor>endpoint_quotient 2\<rfloor> = 10049 \<and>
   \<lfloor>(2 + 1 / 100) / (2 / 10000 :: rat)\<rfloor> = 10050"
  by code_simp

text \<open>
  Claim C1, as stated, fails at a left endpoint on the \<open>2e-4\<close> grid. For the strictly
  increasing array \<open>[2.0, 2.0625, 2.125, 2.1875, 2.5]\<close> and a 12-byte packet the encoder
  succeeds with validation, but the double quotient \<^verbatim>\<open>(2.0+0.01) / 0.0002\<close> is
  \<open>10049.999999999998\<close>: the code is 10049 and the decoded array starts at \<open>1.9998\<close>,
  one step below \<open>2.0\<close>, the left endpoint quantized downwards at the resolution
  \<open>2e-4\<close>.
\<close>

theorem roundtrip_counterexample:
  "sorted_wrt (<) [2, 33 / 16, 17 / 8, 35 / 16, 5 / 2 :: rat] \<and>
   encode_quantiles [2, 33 / 16, 17 / 8, 35 / 16, 5 / 2] 12 True (Some (1 / 1000))
     = Inr (3, [25, 65, 39, 6, 49, 251, 250, 250, 0, 0, 0, 0]) \<and>
   decode_quantiles [25, 65, 39, 6, 49, 251, 250, 250, 0, 0, 0, 0]
     = Inr [9999 / 5000, 41251 / 20000, 42501 / 20000, 43751 / 20000, 5 / 2] \<and>
   endpoint \<lfloor>(2 + 1 / 100) / (2 / 10000 :: rat)\<rfloor> = 2 \<and>
   hd [9999 / 5000, 41251 / 20000, 42501 / 20000, 43751 / 20000, 5 / 2 :: rat] \<noteq> 2"
proof -
  have e: "encode_quantiles [2, 33 / 16, 17 / 8, 35 / 16, 5 / 2] 12 True (Some (1 / 1000))
     = Inr (3, [25, 65, 39, 6, 49, 251, 250, 250, 0, 0, 0, 0])"
    by code_simp
  have d: "decode_quantiles [25, 65, 39, 6, 49, 251, 250, 250, 0, 0, 0, 0]
     = Inr [9999 / 5000, 41251 / 20000, 42501 / 20000, 43751 / 20000, 5 / 2]"
    by code_simp
  have x: "endpoint \<lfloor>(2 + 1 / 100) / (2 / 10000 :: rat)\<rfloor> = 2"
    by (simp add: endpoint_def)
  from e d x show ?thesis by simp
qed

text \<open>
  Claim C1, amended. For every strictly increasing array \<open>q\<close> on which
  \<^verbatim>\<open>encode_quantiles\<close> succeeds with validation on (the default) and a tolerance \<open>tol\<close>
  (0.001 by default), \<^verbatim>\<open>decode_quantiles\<close> on the produced packet returns an array of
  the length of \<open>q\<close>, whose interior values are within \<open>tol\<close> of those of \<open>q\<close>, and
  whose first and last elements are the endpoint codes of the encoder mapped back: the
  floor (left) and the ceiling (right) of the quotient \<^verbatim>\<open>(z+0.01) / 0.0002\<close> as double
  arithmetic evaluates it.
\<close>

theorem roundtrip_amended:
  assumes "sorted_wrt (<) q"
    and "encode_quantiles q L True (Some tol) = Inr (n, packet)"
  shows "\<exists>zs. decode_quantiles packet = Inr zs \<and> length zs = length q \<and>
           (\<forall>i. 0 < i \<and> i < length q - 1 \<longrightarrow> \<bar>q ! i - zs ! i\<bar> \<le> tol) \<and>
           hd zs = endpoint \<lfloor>endpoint_quotient (hd q)\<rfloor> \<and>
           last zs = endpoint \<lceil>endpoint_quotient (last q)\<rceil>"
proof -
  from assms(2) obtain eps payload bmin bmax where
    bmin: "pack_le_H \<lfloor>endpoint_quotient (hd q)\<rfloor> = Inr bmin" and
    bmax: "pack_le_H \<lceil>endpoint_quotient (last q)\<rceil> = Inr bmax" and
    packet: "packet = word_of_int (py_round (eps * 100000)) # bmin @ bmax @ payload
               @ replicate (nat (L - 5 - n)) 0" and
    v: "validate_packet q packet (Some tol) = Inr ()"
    by (elim encode_quantiles_Inr) simp
  from bmin obtain l1 h1 where b1: "bmin = [l1, h1]"
    and u1: "unpack_le_H l1 h1 = \<lfloor>endpoint_quotient (hd q)\<rfloor>"
    by (elim pack_le_H_Inr)
  from bmax obtain l2 h2 where b2: "bmax = [l2, h2]"
    and u2: "unpack_le_H l2 h2 = \<lceil>endpoint_quotient (last q)\<rceil>"
    by (elim pack_le_H_Inr)
  from v obtain zs where d: "decode_quantiles packet = Inr zs" and l: "length zs = length q"
    and s: "\<forall>x\<in>set (map2 (\<lambda>a b. a - b) (interior q) (interior zs)). \<bar>x\<bar> \<le> tol"
    by (rule validate_packet_Inr)
  from d obtain e c1 c2 c3 c4 rest ds where
    p': "packet = e # c1 # c2 # c3 # c4 # rest" and
    zs: "zs = endpoint (unpack_le_H c1 c2) # ds @ [endpoint (unpack_le_H c3 c4)]"
    by (rule decode_quantiles_Inr)
  from packet p' have "c1 = l1" "c2 = h1" "c3 = l2" "c4 = h2"
    by (simp_all add: b1 b2)
  with zs u1 u2 have ends:
    "hd zs = endpoint \<lfloor>endpoint_quotient (hd q)\<rfloor>"
    "last zs = endpoint \<lceil>endpoint_quotient (last q)\<rceil>"
    by simp_all
  have "\<bar>q ! i - zs ! i\<bar> \<le> tol" if i: "0 < i" "i < length q - 1" for i
  proof -
    define shift where "shift = map2 (\<lambda>a b. a - b) (interior q) (interior zs)"
    have len: "length shift = length q - 2"
      by (simp add: shift_def length_interior l)
    with i have j: "i - 1 < length shift" by simp
    then have "shift ! (i - 1) = interior q ! (i - 1) - interior zs ! (i - 1)"
      by (simp add: shift_def)
    also have "\<dots> = q ! i - zs ! i"
      using i l interior_nth [of i q] interior_nth [of i zs] by (simp only:)
    finally have "q ! i - zs ! i \<in> set shift"
      using j nth_mem by metis
    with s show ?thesis
      unfolding shift_def by blast
  qed
  with d l ends show ?thesis by blast
qed

theorem roundtrip_amended_witness:
  "sorted_wrt (<) [0, 1 / 10, 2 / 10, 3 / 10, 1 :: rat] \<and>
   encode_quantiles [0, 1 / 10, 2 / 10, 3 / 10, 1] 12 True (Some (1 / 1000)) =
     Inr (3, [40, 50, 0, 186, 19, 250, 250, 250, 0, 0, 0, 0]) \<and>
   decode_quantiles [40, 50, 0, 186, 19, 250, 250, 250, 0, 0, 0, 0] =
     Inr [0, 1 / 10, 2 / 10, 3 / 10, 1] \<and>
   \<lfloor>endpoint_quotient 0\<rfloor> = 50 \<and> endpoint 50 = 0 \<and>
   \<lceil>endpoint_quotient 1\<rceil> = 5050 \<and> endpoint 5050 = 1"
proof -
  have s: "sorted_wrt (<) [0, 1 / 10, 2 / 10, 3 / 10, 1 :: rat]"
    by simp
  have e: "encode_quantiles [0, 1 / 10, 2 / 10, 3 / 10, 1] 12 True (Some (1 / 1000)) =
     Inr (3, [40, 50, 0, 186, 19, 250, 250, 250, 0, 0, 0, 0])"
    by code_simp
  have d: "decode_quantiles [40, 50, 0, 186, 19, 250, 250, 250, 0, 0, 0, 0] =
     Inr [0, 1 / 10, 2 / 10, 3 / 10, 1]"
    by code_simp
  have c: "\<lfloor>endpoint_quotient 0\<rfloor> = 50" "\<lceil>endpoint_quotient 1\<rceil> = 5050"
    by code_simp+
  from roundtrip_amended [OF s e] d
  have "(0 :: rat) = endpoint \<lfloor>endpoint_quotient 0\<rfloor> \<and> (1 :: rat) = endpoint \<lceil>endpoint_quotient 1\<rceil>"
    by simp
  with c have "endpoint 50 = 0 \<and> endpoint 5050 = 1"
    by simp
  with s e d c show ?thesis by simp
qed

text \<open>
  Without the validation the decoded array can be shorter than the encoded one: interior
  deltas that round to zero at the end of the payload are indistinguishable from the
  padding.
\<close>

lemma roundtrip_without_validation:
  "encode_quantiles
     [0, 1 / 100000, 2 / 100000, 204 / 100000, 204003 / 100000000, 205 / 100000] 13 False None
     = Inr (4, [1, 50, 0, 61, 0, 1, 1, 202, 0, 0, 0, 0, 0]) \<and>
   decode_quantiles [1, 50, 0, 61, 0, 1, 1, 202, 0, 0, 0, 0, 0]
     = Inr [0, 1 / 100000, 1 / 50000, 51 / 25000, 11 / 5000]"
  by code_simp

text \<open>
  A packet that the encoder itself produces, with validation, from a strictly increasing
  array can decode to an array whose last element lies below the one before it: the
  rounded interior value overshoots the quantized right endpoint.
\<close>

lemma encoded_packet_not_monotone:
  "encode_quantiles [- (1 / 100), - (4401 / 1000000), - (44005 / 10000000)] 6 True
     (Some (1 / 1000)) = Inr (1, [3, 0, 0, 28, 0, 187]) \<and>
   decode_quantiles [3, 0, 0, 28, 0, 187]
     = Inr [- (1 / 100), - (439 / 100000), - (11 / 2500)] \<and>
   \<not> sorted [- (1 / 100), - (439 / 100000), - (11 / 2500) :: rat]"
  by code_simp

text \<open>The header byte, the length of the packet and the length of the payload.\<close>

lemma encode_quantiles_first_byte:
  assumes "encode_quantiles q L v t = Inr (n, packet)"
  shows "packet \<noteq> [] \<and> 1 \<le> uint (hd packet) \<and> int (length packet) = L \<and> n \<le> L - 5 \<and> 0 \<le> n"
proof -
  from assms obtain eps payload bmin bmax where
    ce: "choose_eps (sort (map2 (\<lambda>a b. a - b) (interior q) (but_last_two q)))
       ((L - (int (length q) + 3)) div 2) = Inr eps" and
    n: "n = int (length payload)" "n \<le> L - 5" and
    bmin: "pack_le_H \<lfloor>endpoint_quotient (hd q)\<rfloor> = Inr bmin" and
    bmax: "pack_le_H \<lceil>endpoint_quotient (last q)\<rceil> = Inr bmax" and
    packet: "packet = word_of_int (py_round (eps * 100000)) # bmin @ bmax @ payload
               @ replicate (nat (L - 5 - n)) 0"
    by (elim encode_quantiles_Inr)
  from ce obtain c where c: "1 \<le> c" "c \<le> 255" "py_round (eps * 100000) = c"
    by (elim choose_eps_Inr)
  then have "uint (word_of_int (py_round (eps * 100000)) :: byte) = c"
    by (simp add: uint_byte_of_int)
  with c packet have h: "packet \<noteq> []" "1 \<le> uint (hd packet)"
    by simp_all
  from bmin bmax have "length bmin = 2" "length bmax = 2"
    by (auto elim!: pack_le_H_Inr)
  with packet n have "int (length packet) = L"
    by simp
  with h n show ?thesis by simp
qed

section \<open>Termination of the search loop of \<^verbatim>\<open>_batch_encode\<close>\<close>

lemma np_linspace_neg: "num < 0 \<Longrightarrow> np_linspace a b num = Inl (ValueError Builtin)"
  by (simp add: np_linspace_def)

lemma np_linspace_length: "np_linspace a b num = Inr ts \<Longrightarrow> int (length ts) = num"
  by (auto simp: np_linspace_def split: if_splits)

lemma np_quantile_length: "np_quantile a ts = Inr q \<Longrightarrow> length q = length ts"
  by (auto simp: np_quantile_def split: if_splits)

lemma np_interp_length: "np_interp x xp fp l r = Inr y \<Longrightarrow> length y = length x"
  by (auto simp: np_interp_def Let_def split: if_splits)

lemma samples_to_quantiles_neg:
  "N < 0 \<Longrightarrow> samples_to_quantiles s N = Inl (ValueError Builtin)"
  by (simp add: samples_to_quantiles_def np_linspace_neg)

lemma samples_to_quantiles_length:
  "samples_to_quantiles s N = Inr q \<Longrightarrow> int (length q) = N"
  by (auto simp: samples_to_quantiles_def Let_def split: sum.splits
      dest!: np_linspace_length np_quantile_length)

lemma binned_to_quantiles_neg:
  "N < 0 \<Longrightarrow> \<exists>e. binned_to_quantiles g P N = Inl e"
  unfolding binned_to_quantiles_def Let_def
  by (simp only: np_linspace_neg sum.case split: if_split) blast

lemma interp_linspace_length:
  assumes "(case np_linspace a b N of Inl e \<Rightarrow> Inl e | Inr ts \<Rightarrow> np_interp ts xp fp l r) = Inr q"
  shows "int (length q) = N"
proof (cases "np_linspace a b N")
  case (Inl e)
  with assms show ?thesis by simp
next
  case (Inr ts)
  with assms have "np_interp ts xp fp l r = Inr q" by simp
  then have "length q = length ts" by (rule np_interp_length)
  with np_linspace_length [OF Inr] show ?thesis by simp
qed

lemma binned_to_quantiles_length:
  assumes "binned_to_quantiles g P N = Inr q"
  shows "int (length q) = N"
  using assms unfolding binned_to_quantiles_def Let_def
  by (simp only: split: if_splits)
    (auto simp only: sum.distinct dest: np_linspace_length interp_linspace_length)

lemma row_quantiles_neg: "N < 0 \<Longrightarrow> \<exists>e. row_quantiles r N = Inl e"
  by (cases r) (simp_all add: binned_to_quantiles_neg samples_to_quantiles_neg)

lemma row_quantiles_length: "row_quantiles r N = Inr q \<Longrightarrow> int (length q) = N"
  by (cases r) (simp_all add: binned_to_quantiles_length samples_to_quantiles_length)

lemma encode_too_many:
  "int (length q) > L - 3 \<Longrightarrow> encode_quantiles q L v t = Inl (ValueError CannotFit)"
  by (simp add: encode_quantiles_def)

lemma encode_payload_length:
  "encode_quantiles q L v t = Inr (n, packet) \<Longrightarrow> n \<le> L - 5"
  using encode_quantiles_first_byte by blast

text \<open>One pass of the loop, case by case.\<close>

lemma row_search_extract_error:
  "row_quantiles r N = Inl e \<Longrightarrow> row_search r L t v N lastgood n = Some (Inl e, Suc n)"
  by (subst row_search.simps) simp

lemma row_search_fallback:
  "row_quantiles r N = Inr q \<Longrightarrow> encode_quantiles q L v t = Inl (ValueError ve) \<Longrightarrow>
   row_search r L t v N (Some p) n = Some (Inr p, Suc n)"
  by (subst row_search.simps) simp

lemma row_search_retreat:
  "row_quantiles r N = Inr q \<Longrightarrow> encode_quantiles q L v t = Inl (ValueError ve) \<Longrightarrow>
   row_search r L t v N None n = row_search r L t v (N - 2) None (Suc n)"
  by (subst row_search.simps) simp

lemma row_search_other_error:
  "row_quantiles r N = Inr q \<Longrightarrow> encode_quantiles q L v t = Inl e \<Longrightarrow>
   \<forall>ve. e \<noteq> ValueError ve \<Longrightarrow>
   row_search r L t v N lastgood n = Some (Inl e, Suc n)"
  by (subst row_search.simps) (cases e; simp)

lemma row_search_advance:
  "row_quantiles r N = Inr q \<Longrightarrow> encode_quantiles q L v t = Inr (m, packet) \<Longrightarrow>
   m < L - 5 \<Longrightarrow>
   row_search r L t v N lastgood n = row_search r L t v (N + 2) (Some packet) (Suc n)"
  by (subst row_search.simps) simp

lemma row_search_exact:
  "row_quantiles r N = Inr q \<Longrightarrow> encode_quantiles q L v t = Inr (m, packet) \<Longrightarrow>
   m = L - 5 \<Longrightarrow>
   row_search r L t v N lastgood n = Some (Inr packet, Suc n)"
  by (subst row_search.simps) simp

text \<open>
  Once a good packet is known, the quantile count only grows, and the size check of the
  encoder ends the search. The packet that comes out is an exact fit, or the last good
  packet, after a ValueError at the next count.
\<close>

lemma row_search_up:
  assumes "\<exists>q m. row_quantiles r (N - 2) = Inr q \<and> encode_quantiles q L v t = Inr (m, p) \<and>
             m < L - 5"
  shows "\<exists>res n'. row_search r L t v N (Some p) n = Some (res, n') \<and>
           n' \<le> n + nat (L - 2 - N) + 1 \<and>
           (\<forall>packet. res = Inr packet \<longrightarrow>
              (\<exists>K q m. row_quantiles r K = Inr q \<and>
                 encode_quantiles q L v t = Inr (m, packet) \<and>
                 (m = L - 5 \<or>
                  m < L - 5 \<and>
                  (\<exists>q' ve. row_quantiles r (K + 2) = Inr q' \<and>
                     encode_quantiles q' L v t = Inl (ValueError ve)))))"
  using assms
proof (induction "nat (L - 2 - N)" arbitrary: N p n rule: less_induct)
  case less
  note good = less.prems
  show ?case
  proof (cases "row_quantiles r N")
    case (Inl e)
    then show ?thesis
      by (simp add: row_search_extract_error)
  next
    case (Inr q)
    then have len: "int (length q) = N"
      by (rule row_quantiles_length)
    show ?thesis
    proof (cases "encode_quantiles q L v t")
      case (Inl e)
      show ?thesis
      proof (cases "\<exists>ve. e = ValueError ve")
        case True
        then obtain ve where e: "e = ValueError ve" by blast
        have res: "row_search r L t v N (Some p) n = Some (Inr p, Suc n)"
          using Inr Inl unfolding e by (rule row_search_fallback)
        from good obtain q0 m0 where
          q0: "row_quantiles r (N - 2) = Inr q0" "encode_quantiles q0 L v t = Inr (m0, p)"
            "m0 < L - 5"
          by blast
        have "row_quantiles r (N - 2 + 2) = Inr q \<and>
              encode_quantiles q L v t = Inl (ValueError ve)"
          using Inr Inl e by simp
        with q0 have "\<exists>K q m. row_quantiles r K = Inr q \<and>
                 encode_quantiles q L v t = Inr (m, p) \<and>
                 (m = L - 5 \<or>
                  m < L - 5 \<and>
                  (\<exists>q' ve. row_quantiles r (K + 2) = Inr q' \<and>
                     encode_quantiles q' L v t = Inl (ValueError ve)))"
          by blast
        with res show ?thesis by simp
      next
        case False
        then have "\<forall>ve. e \<noteq> ValueError ve" by blast
        with Inr Inl have "row_search r L t v N (Some p) n = Some (Inl e, Suc n)"
          by (rule row_search_other_error)
        then show ?thesis by simp
      qed
    next
      case enc: (Inr res)
      obtain m packet where res: "res = (m, packet)" by (cases res)
      from enc res have m: "m \<le> L - 5"
        using encode_payload_length by blast
      have N: "N \<le> L - 3"
        using enc encode_too_many [of L q v t] len by (cases "N \<le> L - 3") auto
      show ?thesis
      proof (cases "m < L - 5")
        case True
        have step: "row_search r L t v N (Some p) n =
                    row_search r L t v (N + 2) (Some packet) (Suc n)"
          using Inr enc [unfolded res] True by (rule row_search_advance)
        have good': "\<exists>q m. row_quantiles r (N + 2 - 2) = Inr q \<and>
                       encode_quantiles q L v t = Inr (m, packet) \<and> m < L - 5"
          using Inr enc res True by auto
        have "nat (L - 2 - (N + 2)) < nat (L - 2 - N)"
          using N by simp
        from less.hyps [OF this good', of "Suc n"] obtain res' n' where
          r: "row_search r L t v (N + 2) (Some packet) (Suc n) = Some (res', n')"
          and b: "n' \<le> Suc n + nat (L - 2 - (N + 2)) + 1"
          and g: "\<forall>packet. res' = Inr packet \<longrightarrow>
              (\<exists>K q m. row_quantiles r K = Inr q \<and>
                 encode_quantiles q L v t = Inr (m, packet) \<and>
                 (m = L - 5 \<or>
                  m < L - 5 \<and>
                  (\<exists>q' ve. row_quantiles r (K + 2) = Inr q' \<and>
                     encode_quantiles q' L v t = Inl (ValueError ve))))"
          by blast
        have "n' \<le> n + nat (L - 2 - N) + 1"
          using b N by simp
        with step r g show ?thesis by simp
      next
        case False
        with m have eq: "m = L - 5" by simp
        have "row_search r L t v N (Some p) n = Some (Inr packet, Suc n)"
          using Inr enc [unfolded res] eq by (rule row_search_exact)
        moreover have "\<exists>K q m. row_quantiles r K = Inr q \<and>
                 encode_quantiles q L v t = Inr (m, packet) \<and>
                 (m = L - 5 \<or>
                  m < L - 5 \<and>
                  (\<exists>q' ve. row_quantiles r (K + 2) = Inr q' \<and>
                     encode_quantiles q' L v t = Inl (ValueError ve)))"
          using Inr enc res eq by blast
        ultimately show ?thesis by simp
      qed
    qed
  qed
qed

text \<open>
  Before any success the quantile count only shrinks, and a negative count makes
  \<^verbatim>\<open>np.linspace\<close> raise in the extractor.
\<close>

lemma row_search_down:
  "\<exists>res n'. row_search r L t v N None n = Some (res, n') \<and>
     n' \<le> n + nat (N + 2) + nat L + 1 \<and>
     (\<forall>packet. res = Inr packet \<longrightarrow>
        (\<exists>K q m. row_quantiles r K = Inr q \<and>
           encode_quantiles q L v t = Inr (m, packet) \<and>
           (m = L - 5 \<or>
            m < L - 5 \<and>
            (\<exists>q' ve. row_quantiles r (K + 2) = Inr q' \<and>
               encode_quantiles q' L v t = Inl (ValueError ve)))))"
proof (induction "nat (N + 2)" arbitrary: N n rule: less_induct)
  case less
  show ?case
  proof (cases "row_quantiles r N")
    case (Inl e)
    then show ?thesis
      by (simp add: row_search_extract_error)
  next
    case (Inr q)
    from Inr have N0: "0 \<le> N"
      using row_quantiles_neg [of N r] by (cases "0 \<le> N") auto
    show ?thesis
    proof (cases "encode_quantiles q L v t")
      case (Inl e)
      show ?thesis
      proof (cases "\<exists>ve. e = ValueError ve")
        case True
        then obtain ve where e: "e = ValueError ve" by blast
        have step: "row_search r L t v N None n = row_search r L t v (N - 2) None (Suc n)"
          using Inr Inl unfolding e by (rule row_search_retreat)
        have "nat (N - 2 + 2) < nat (N + 2)"
          using N0 by simp
        from less [OF this, of "Suc n"] obtain res' n' where
          r: "row_search r L t v (N - 2) None (Suc n) = Some (res', n')"
          and b: "n' \<le> Suc n + nat (N - 2 + 2) + nat L + 1"
          and g: "\<forall>packet. res' = Inr packet \<longrightarrow>
              (\<exists>K q m. row_quantiles r K = Inr q \<and>
                 encode_quantiles q L v t = Inr (m, packet) \<and>
                 (m = L - 5 \<or>
                  m < L - 5 \<and>
                  (\<exists>q' ve. row_quantiles r (K + 2) = Inr q' \<and>
                     encode_quantiles q' L v t = Inl (ValueError ve))))"
          by blast
        have "n' \<le> n + nat (N + 2) + nat L + 1"
          using b N0 by simp
        with step r g show ?thesis by simp
      next
        case False
        then have "\<forall>ve. e \<noteq> ValueError ve" by blast
        with Inr Inl have "row_search r L t v N None n = Some (Inl e, Suc n)"
          by (rule row_search_other_error)
        then show ?thesis by simp
      qed
    next
      case enc: (Inr res)
      obtain m packet where res: "res = (m, packet)" by (cases res)
      from enc res have m: "m \<le> L - 5"
        using encode_payload_length by blast
      show ?thesis
      proof (cases "m < L - 5")
        case True
        have step: "row_search r L t v N None n =
                    row_search r L t v (N + 2) (Some packet) (Suc n)"
          using Inr enc [unfolded res] True by (rule row_search_advance)
        have good': "\<exists>q m. row_quantiles r (N + 2 - 2) = Inr q \<and>
                       encode_quantiles q L v t = Inr (m, packet) \<and> m < L - 5"
          using Inr enc res True by auto
        from row_search_up [OF good', of "Suc n"] obtain res' n' where
          r: "row_search r L t v (N + 2) (Some packet) (Suc n) = Some (res', n')"
          and b: "n' \<le> Suc n + nat (L - 2 - (N + 2)) + 1"
          and g: "\<forall>packet. res' = Inr packet \<longrightarrow>
              (\<exists>K q m. row_quantiles r K = Inr q \<and>
                 encode_quantiles q L v t = Inr (m, packet) \<and>
                 (m = L - 5 \<or>
                  m < L - 5 \<and>
                  (\<exists>q' ve. row_quantiles r (K + 2) = Inr q' \<and>
                     encode_quantiles q' L v t = Inl (ValueError ve))))"
          by blast
        have "n' \<le> n + nat (N + 2) + nat L + 1"
          using b N0 by simp
        with step r g show ?thesis by simp
      next
        case False
        with m have eq: "m = L - 5" by simp
        have "row_search r L t v N None n = Some (Inr packet, Suc n)"
          using Inr enc [unfolded res] eq by (rule row_search_exact)
        moreover have "\<exists>K q m. row_quantiles r K = Inr q \<and>
                 encode_quantiles q L v t = Inr (m, packet) \<and>
                 (m = L - 5 \<or>
                  m < L - 5 \<and>
                  (\<exists>q' ve. row_quantiles r (K + 2) = Inr q' \<and>
                     encode_quantiles q' L v t = Inl (ValueError ve)))"
          using Inr enc res eq by blast
        ultimately show ?thesis by simp
      qed
    qed
  qed
qed

text \<open>
  Claim C3, as stated, fails: the loop does not always fall back to the best packet
  found. For the thirteen samples below, \<open>packetsize = 12\<close> and \<open>ini_quantiles = 5\<close>, the
  first pass succeeds with five quantiles and a payload of 5 bytes (less than 7), so the
  packet is kept as \<open>lastgood\<close>; the second pass, with seven quantiles, has \<open>eps = 1e-5\<close>
  and a first delta of 65549, \<^verbatim>\<open>struct.pack\<close> raises \<^verbatim>\<open>struct.error\<close>, which is not a
  ValueError, and the loop ends with it: the good packet is dropped.
\<close>

theorem row_search_counterexample:
  "row_quantiles (Samples (map Finite [19 / 100000, 3 / 10, 65549 / 100000, 6556 / 10000, 6557 / 10000,
        65575 / 100000, 6558 / 10000, 65585 / 100000, 6559 / 10000, 65596 / 100000,
        6560 / 10000, 6561 / 10000, 65625 / 100000])) 5
     = Inr [19 / 100000, 1639 / 2500, 3279 / 5000, 16399 / 25000, 21 / 32] \<and>
   encode_quantiles [19 / 100000, 1639 / 2500, 3279 / 5000, 16399 / 25000, 21 / 32] 12 False None
     = Inr (5, [2, 50, 0, 4, 13, 255, 128, 12, 10, 8, 0, 0]) \<and>
   (5 :: int) < 12 - 5 \<and>
   row_quantiles (Samples (map Finite [19 / 100000, 3 / 10, 65549 / 100000, 6556 / 10000, 6557 / 10000,
        65575 / 100000, 6558 / 10000, 65585 / 100000, 6559 / 10000, 65596 / 100000,
        6560 / 10000, 6561 / 10000, 65625 / 100000])) 7
     = Inr [19 / 100000, 65549 / 100000, 6557 / 10000, 3279 / 5000, 6559 / 10000, 82 / 125, 21 / 32] \<and>
   encode_quantiles [19 / 100000, 65549 / 100000, 6557 / 10000, 3279 / 5000, 6559 / 10000, 82 / 125, 21 / 32]
     12 False None = Inl StructError \<and>
   row_search (Samples (map Finite [19 / 100000, 3 / 10, 65549 / 100000, 6556 / 10000, 6557 / 10000,
        65575 / 100000, 6558 / 10000, 65585 / 100000, 6559 / 10000, 65596 / 100000,
        6560 / 10000, 6561 / 10000, 65625 / 100000])) 12 None False 5 None 0 = Some (Inl StructError, 2)"
proof -
  have q5: "row_quantiles (Samples (map Finite [19 / 100000, 3 / 10, 65549 / 100000, 6556 / 10000, 6557 / 10000,
        65575 / 100000, 6558 / 10000, 65585 / 100000, 6559 / 10000, 65596 / 100000,
        6560 / 10000, 6561 / 10000, 65625 / 100000])) 5
     = Inr [19 / 100000, 1639 / 2500, 3279 / 5000, 16399 / 25000, 21 / 32]"
    by code_simp
  have e5: "encode_quantiles [19 / 100000, 1639 / 2500, 3279 / 5000, 16399 / 25000, 21 / 32] 12 False None
     = Inr (5, [2, 50, 0, 4, 13, 255, 128, 12, 10, 8, 0, 0])"
    by code_simp
  have q7: "row_quantiles (Samples (map Finite [19 / 100000, 3 / 10, 65549 / 100000, 6556 / 10000, 6557 / 10000,
        65575 / 100000, 6558 / 10000, 65585 / 100000, 6559 / 10000, 65596 / 100000,
        6560 / 10000, 6561 / 10000, 65625 / 100000])) 7
     = Inr [19 / 100000, 65549 / 100000, 6557 / 10000, 3279 / 5000, 6559 / 10000, 82 / 125, 21 / 32]"
    by code_simp
  have e7: "encode_quantiles [19 / 100000, 65549 / 100000, 6557 / 10000, 3279 / 5000, 6559 / 10000, 82 / 125, 21 / 32]
     12 False None = Inl StructError"
    by code_simp
  have "row_search (Samples (map Finite [19 / 100000, 3 / 10, 65549 / 100000, 6556 / 10000, 6557 / 10000,
        65575 / 100000, 6558 / 10000, 65585 / 100000, 6559 / 10000, 65596 / 100000,
        6560 / 10000, 6561 / 10000, 65625 / 100000])) 12 None False 5 None 0
      = row_search (Samples (map Finite [19 / 100000, 3 / 10, 65549 / 100000, 6556 / 10000, 6557 / 10000,
        65575 / 100000, 6558 / 10000, 65585 / 100000, 6559 / 10000, 65596 / 100000,
        6560 / 10000, 6561 / 10000, 65625 / 100000])) 12 None False (5 + 2)
          (Some [2, 50, 0, 4, 13, 255, 128, 12, 10, 8, 0, 0]) (Suc 0)"
    using q5 e5 by (rule row_search_advance) simp
  also have "\<dots> = Some (Inl StructError, Suc (Suc 0))"
    using q7 e7 by (simp add: row_search_other_error)
  finally show ?thesis
    using q5 e5 q7 e7 by simp
qed

text \<open>
  Claim C3, amended. The loop has no iteration counter, yet for every row, packet length
  and initial quantile count it ends (with a packet or with an exception) after at most
  \<open>max(ini_quantiles + 2, 0) + max(packetsize, 0) + 1\<close> passes, each with at most one call
  of \<^verbatim>\<open>encode_quantiles\<close>. A packet it ends with is one that \<^verbatim>\<open>encode_quantiles\<close>
  returned for some quantile count \<open>K\<close>: an exact fit, or the last good packet, kept
  because the attempt at \<open>K + 2\<close> raised a ValueError. In any pass, a ValueError of
  \<^verbatim>\<open>encode_quantiles\<close> after a success ends the loop with \<open>lastgood\<close>; an exception of
  the extractor, and an exception of \<^verbatim>\<open>encode_quantiles\<close> that is not a ValueError, end
  the loop with that exception, whether or not a good packet was found.
\<close>

theorem row_search_amended:
  "(\<exists>res n. row_search r packetsize tolerance validate ini_quantiles None 0 = Some (res, n) \<and>
      n \<le> nat (ini_quantiles + 2) + nat packetsize + 1 \<and>
      (\<forall>packet. res = Inr packet \<longrightarrow>
        (\<exists>K q m. row_quantiles r K = Inr q \<and>
           encode_quantiles q packetsize validate tolerance = Inr (m, packet) \<and>
           (m = packetsize - 5 \<or>
            m < packetsize - 5 \<and>
            (\<exists>q' ve. row_quantiles r (K + 2) = Inr q' \<and>
               encode_quantiles q' packetsize validate tolerance = Inl (ValueError ve)))))) \<and>
   (\<forall>N q ve p n. row_quantiles r N = Inr q \<and>
      encode_quantiles q packetsize validate tolerance = Inl (ValueError ve) \<longrightarrow>
      row_search r packetsize tolerance validate N (Some p) n = Some (Inr p, Suc n)) \<and>
   (\<forall>N q e lastgood n. row_quantiles r N = Inr q \<and>
      encode_quantiles q packetsize validate tolerance = Inl e \<and> (\<forall>ve. e \<noteq> ValueError ve) \<longrightarrow>
      row_search r packetsize tolerance validate N lastgood n = Some (Inl e, Suc n)) \<and>
   (\<forall>N e lastgood n. row_quantiles r N = Inl e \<longrightarrow>
      row_search r packetsize tolerance validate N lastgood n = Some (Inl e, Suc n))"
proof (intro conjI allI impI)
  show "\<exists>res n. row_search r packetsize tolerance validate ini_quantiles None 0 = Some (res, n) \<and>
      n \<le> nat (ini_quantiles + 2) + nat packetsize + 1 \<and>
      (\<forall>packet. res = Inr packet \<longrightarrow>
        (\<exists>K q m. row_quantiles r K = Inr q \<and>
           encode_quantiles q packetsize validate tolerance = Inr (m, packet) \<and>
           (m = packetsize - 5 \<or>
            m < packetsize - 5 \<and>
            (\<exists>q' ve. row_quantiles r (K + 2) = Inr q' \<and>
               encode_quantiles q' packetsize validate tolerance = Inl (ValueError ve)))))"
    using row_search_down [of r packetsize tolerance validate ini_quantiles 0] by simp
next
  fix N q ve p n
  assume "row_quantiles r N = Inr q \<and>
      encode_quantiles q packetsize validate tolerance = Inl (ValueError ve)"
  then show "row_search r packetsize tolerance validate N (Some p) n = Some (Inr p, Suc n)"
    by (simp add: row_search_fallback)
next
  fix N q e lastgood n
  assume "row_quantiles r N = Inr q \<and>
      encode_quantiles q packetsize validate tolerance = Inl e \<and> (\<forall>ve. e \<noteq> ValueError ve)"
  then show "row_search r packetsize tolerance validate N lastgood n = Some (Inl e, Suc n)"
    using row_search_other_error by blast
next
  fix N e lastgood n
  assume "row_quantiles r N = Inl e"
  then show "row_search r packetsize tolerance validate N lastgood n = Some (Inl e, Suc n)"
    by (rule row_search_extract_error)
qed

theorem row_search_amended_witness:
  "row_search (PDF_histogram [5 / 100, 15 / 100, 25 / 100, 35 / 100, 45 / 100, 55 / 100, 65 / 100,
        75 / 100, 85 / 100, 95 / 100] [1, 0, 0, 0, 0, 0, 0, 0, 0, 1]) 16 None False 8 None 0
     = Some (Inr [9, 50, 0, 186, 19, 247, 247, 247, 247, 255, 35, 175, 247, 247, 247, 0], 3) \<and>
   (3 :: nat) \<le> nat (8 + 2) + nat 16 + 1 \<and>
   row_quantiles (PDF_histogram [5 / 100, 15 / 100, 25 / 100, 35 / 100, 45 / 100, 55 / 100, 65 / 100,
        75 / 100, 85 / 100, 95 / 100] [1, 0, 0, 0, 0, 0, 0, 0, 0, 1]) 10
     = Inr [0, 1 / 45, 2 / 45, 1 / 15, 4 / 45, 41 / 45, 14 / 15, 43 / 45, 44 / 45, 1] \<and>
   encode_quantiles [0, 1 / 45, 2 / 45, 1 / 15, 4 / 45, 41 / 45, 14 / 15, 43 / 45, 44 / 45, 1]
     16 False None = Inr (10, [9, 50, 0, 186, 19, 247, 247, 247, 247, 255, 35, 175, 247, 247, 247, 0]) \<and>
   (10 :: int) < 16 - 5 \<and>
   row_quantiles (PDF_histogram [5 / 100, 15 / 100, 25 / 100, 35 / 100, 45 / 100, 55 / 100, 65 / 100,
        75 / 100, 85 / 100, 95 / 100] [1, 0, 0, 0, 0, 0, 0, 0, 0, 1]) (10 + 2)
     = Inr [0, 1 / 55, 2 / 55, 3 / 55, 4 / 55, 1 / 11, 10 / 11, 51 / 55, 52 / 55, 53 / 55, 54 / 55, 1] \<and>
   encode_quantiles [0, 1 / 55, 2 / 55, 3 / 55, 4 / 55, 1 / 11, 10 / 11, 51 / 55, 52 / 55, 53 / 55, 54 / 55, 1]
     16 False None = Inl (ValueError EpsMinTooLarge) \<and>
   row_search (PDF_histogram [5 / 100, 15 / 100, 25 / 100, 35 / 100, 45 / 100, 55 / 100, 65 / 100,
        75 / 100, 85 / 100, 95 / 100] [1, 0, 0, 0, 0, 0, 0, 0, 0, 1]) 16 None False (10 + 2)
     (Some [9, 50, 0, 186, 19, 247, 247, 247, 247, 255, 35, 175, 247, 247, 247, 0]) 2
     = Some (Inr [9, 50, 0, 186, 19, 247, 247, 247, 247, 255, 35, 175, 247, 247, 247, 0], Suc 2) \<and>
   row_quantiles (PDF_histogram [5 / 100, 15 / 100, 25 / 100, 35 / 100, 45 / 100, 55 / 100, 65 / 100,
        75 / 100, 85 / 100, 95 / 100] [1, 0, 0, 0, 0, 0, 0, 0, 0, 1]) (- 1) = Inl (ValueError Builtin) \<and>
   row_search (PDF_histogram [5 / 100, 15 / 100, 25 / 100, 35 / 100, 45 / 100, 55 / 100, 65 / 100,
        75 / 100, 85 / 100, 95 / 100] [1, 0, 0, 0, 0, 0, 0, 0, 0, 1]) 16 None False (- 1) None 5 = Some (Inl (ValueError Builtin), Suc 5)"
proof -
  have s: "row_search (PDF_histogram [5 / 100, 15 / 100, 25 / 100, 35 / 100, 45 / 100, 55 / 100, 65 / 100,
        75 / 100, 85 / 100, 95 / 100] [1, 0, 0, 0, 0, 0, 0, 0, 0, 1]) 16 None False 8 None 0
     = Some (Inr [9, 50, 0, 186, 19, 247, 247, 247, 247, 255, 35, 175, 247, 247, 247, 0], 3)"
    by code_simp
  have q10: "row_quantiles (PDF_histogram [5 / 100, 15 / 100, 25 / 100, 35 / 100, 45 / 100, 55 / 100, 65 / 100,
        75 / 100, 85 / 100, 95 / 100] [1, 0, 0, 0, 0, 0, 0, 0, 0, 1]) 10
     = Inr [0, 1 / 45, 2 / 45, 1 / 15, 4 / 45, 41 / 45, 14 / 15, 43 / 45, 44 / 45, 1]"
    by code_simp
  have e10: "encode_quantiles [0, 1 / 45, 2 / 45, 1 / 15, 4 / 45, 41 / 45, 14 / 15, 43 / 45, 44 / 45, 1]
     16 False None = Inr (10, [9, 50, 0, 186, 19, 247, 247, 247, 247, 255, 35, 175, 247, 247, 247, 0])"
    by code_simp
  have q12: "row_quantiles (PDF_histogram [5 / 100, 15 / 100, 25 / 100, 35 / 100, 45 / 100, 55 / 100, 65 / 100,
        75 / 100, 85 / 100, 95 / 100] [1, 0, 0, 0, 0, 0, 0, 0, 0, 1]) (10 + 2)
     = Inr [0, 1 / 55, 2 / 55, 3 / 55, 4 / 55, 1 / 11, 10 / 11, 51 / 55, 52 / 55, 53 / 55, 54 / 55, 1]"
    by code_simp
  have e12: "encode_quantiles [0, 1 / 55, 2 / 55, 3 / 55, 4 / 55, 1 / 11, 10 / 11, 51 / 55, 52 / 55, 53 / 55, 54 / 55, 1]
     16 False None = Inl (ValueError EpsMinTooLarge)"
    by code_simp
  have qn: "row_quantiles (PDF_histogram [5 / 100, 15 / 100, 25 / 100, 35 / 100, 45 / 100, 55 / 100, 65 / 100,
        75 / 100, 85 / 100, 95 / 100] [1, 0, 0, 0, 0, 0, 0, 0, 0, 1]) (- 1) = Inl (ValueError Builtin)"
    by code_simp
  note T = row_search_amended [of "(PDF_histogram [5 / 100, 15 / 100, 25 / 100, 35 / 100, 45 / 100, 55 / 100, 65 / 100,
        75 / 100, 85 / 100, 95 / 100] [1, 0, 0, 0, 0, 0, 0, 0, 0, 1])" 16 None False 8]
  from T have b: "\<exists>res n. row_search (PDF_histogram [5 / 100, 15 / 100, 25 / 100, 35 / 100, 45 / 100, 55 / 100, 65 / 100,
        75 / 100, 85 / 100, 95 / 100] [1, 0, 0, 0, 0, 0, 0, 0, 0, 1]) 16 None False 8 None 0 = Some (res, n) \<and>
      n \<le> nat (8 + 2) + nat 16 + 1"
    by blast
  have f: "row_search (PDF_histogram [5 / 100, 15 / 100, 25 / 100, 35 / 100, 45 / 100, 55 / 100, 65 / 100,
        75 / 100, 85 / 100, 95 / 100] [1, 0, 0, 0, 0, 0, 0, 0, 0, 1]) 16 None False (10 + 2)
     (Some [9, 50, 0, 186, 19, 247, 247, 247, 247, 255, 35, 175, 247, 247, 247, 0]) 2
     = Some (Inr [9, 50, 0, 186, 19, 247, 247, 247, 247, 255, 35, 175, 247, 247, 247, 0], Suc 2)"
    by (rule T [THEN conjunct2, THEN conjunct1, rule_format, OF conjI [OF q12 e12]])
  have x: "row_search (PDF_histogram [5 / 100, 15 / 100, 25 / 100, 35 / 100, 45 / 100, 55 / 100, 65 / 100,
        75 / 100, 85 / 100, 95 / 100] [1, 0, 0, 0, 0, 0, 0, 0, 0, 1]) 16 None False (- 1) None 5 = Some (Inl (ValueError Builtin), Suc 5)"
    by (rule T [THEN conjunct2, THEN conjunct2, THEN conjunct2, rule_format, OF qn])
  from b s have "(3 :: nat) \<le> nat (8 + 2) + nat 16 + 1"
    by simp
  with s q10 e10 q12 e12 f qn x show ?thesis
    by (intro conjI) simp_all
qed

section \<open>The sentinel packet\<close>

lemma tobytes_zeros: "tobytes (replicate k 0) = replicate (4 * k) 0"
proof (induction k)
  case 0
  show ?case by simp
next
  case (Suc k)
  have "replicate (4 * Suc k) (0 :: byte) = replicate 4 0 @ replicate (4 * k) 0"
    by (simp only: replicate_add [symmetric]) simp
  also have "replicate 4 (0 :: byte) = [0, 0, 0, 0]"
    by (simp add: eval_nat_numeral)
  finally show ?case
    using Suc by simp
qed

lemma batch_rows_total: "\<exists>res. batch_rows rs ini L t v = Some res"
proof (induction rs)
  case Nil
  show ?case by simp
next
  case (Cons r rs)
  then obtain res where rest: "batch_rows rs ini L t v = Some res" by blast
  from row_search_down [of r L t v ini 0] obtain res' n where
    "row_search r L t v ini None 0 = Some (res', n)" by blast
  with rest show ?case
    by (cases res; cases res'; simp split: sum.splits)
qed

lemma batch_rows_Inr:
  assumes "batch_rows rs ini L t v = Some (Inr out)"
  shows "length out = length rs \<and>
         (\<forall>i<length rs. \<not> row_valid (rs ! i) \<longrightarrow> out ! i = replicate (nat (L div 4)) 0)"
  using assms
proof (induction rs arbitrary: out)
  case Nil
  then show ?case by simp
next
  case (Cons r rs)
  from Cons.prems obtain w rows where
    out: "out = w # rows" and rest: "batch_rows rs ini L t v = Some (Inr rows)"
    and w: "\<not> row_valid r \<longrightarrow> w = replicate (nat (L div 4)) 0"
    by (auto split: if_splits option.splits sum.splits prod.splits)
  from Cons.IH [OF rest] have
    l: "length rows = length rs" and
    z: "\<forall>i<length rs. \<not> row_valid (rs ! i) \<longrightarrow> rows ! i = replicate (nat (L div 4)) 0"
    by simp_all
  show ?case
  proof (intro conjI allI impI)
    show "length out = length (r # rs)"
      using out l by simp
  next
    fix i
    assume "i < length (r # rs)" and "\<not> row_valid ((r # rs) ! i)"
    then show "out ! i = replicate (nat (L div 4)) 0"
      using out w z by (cases i) simp_all
  qed
qed

text \<open>
  Claim C6. \<^verbatim>\<open>_batch_encode\<close> always ends; when it returns, it returns one row per
  input row, and every row that is not valid (a histogram whose total mass is not
  positive, samples that are not all finite) is the row of zeros it started with, whose
  bytes are all zero. Conversely a packet returned by a successful
  \<^verbatim>\<open>encode_quantiles\<close> has a first byte of at least 1, so it is not all-zero.
\<close>

theorem sentinel:
  "(\<exists>res. batch_encode data ini_quantiles packetsize tolerance validate = Some res) \<and>
   (batch_encode data ini_quantiles packetsize tolerance validate = Some (Inr out) \<longrightarrow>
      length out = length data \<and>
      (\<forall>i<length data. \<not> row_valid (data ! i) \<longrightarrow>
         out ! i = replicate (nat (packetsize div 4)) 0 \<and>
         tobytes (out ! i) = replicate (nat packetsize) 0)) \<and>
   (encode_quantiles q L v t = Inr (n, packet) \<longrightarrow>
      packet \<noteq> [] \<and> 1 \<le> uint (hd packet) \<and> packet \<noteq> replicate (length packet) 0)"
proof (intro conjI impI)
  show "\<exists>res. batch_encode data ini_quantiles packetsize tolerance validate = Some res"
    using batch_rows_total [of data ini_quantiles packetsize tolerance validate]
    by (simp add: batch_encode_def)
next
  assume b: "batch_encode data ini_quantiles packetsize tolerance validate = Some (Inr out)"
  then have m: "packetsize mod 4 = 0" and p: "0 \<le> packetsize div 4"
    and r: "batch_rows data ini_quantiles packetsize tolerance validate = Some (Inr out)"
    by (auto simp: batch_encode_def split: if_splits)
  from m have "packetsize = 4 * (packetsize div 4)"
    by presburger
  then have "nat packetsize = nat (4 * (packetsize div 4))"
    by simp
  also have "\<dots> = 4 * nat (packetsize div 4)"
    using p by (simp add: nat_mult_distrib)
  finally have k: "4 * nat (packetsize div 4) = nat packetsize"
    by simp
  from batch_rows_Inr [OF r] show "length out = length data"
    and "\<forall>i<length data. \<not> row_valid (data ! i) \<longrightarrow>
         out ! i = replicate (nat (packetsize div 4)) 0 \<and>
         tobytes (out ! i) = replicate (nat packetsize) 0"
    by (simp_all add: tobytes_zeros k)
next
  assume e: "encode_quantiles q L v t = Inr (n, packet)"
  from encode_quantiles_first_byte [OF e]
  show ne: "packet \<noteq> []" and h: "1 \<le> uint (hd packet)"
    by simp_all
  show "packet \<noteq> replicate (length packet) 0"
  proof
    assume "packet = replicate (length packet) 0"
    then have "hd packet = hd (replicate (length packet) 0)" by simp
    with ne have "hd packet = 0" by (cases packet) simp_all
    with h show False by simp
  qed
qed

theorem sentinel_witness:
  "batch_encode
     [PDF_histogram [0, 1 / 10, 2 / 10, 3 / 10, 4 / 10] [0, 0, 0, 0, 0],
      PDF_histogram [0, 1 / 10, 2 / 10, 3 / 10, 4 / 10] [0, 1, 1, 1, 0],
      Samples [Finite (1 / 10), NonFinite]] 5 8 None False
     = Some (Inr [[0, 0], [506200328, 133888762], [0, 0]]) \<and>
   tobytes [0, 0] = [0, 0, 0, 0, 0, 0, 0, 0] \<and>
   encode_quantiles [0, 1 / 10, 2 / 10, 3 / 10, 1] 12 True (Some (1 / 1000)) =
     Inr (3, [40, 50, 0, 186, 19, 250, 250, 250, 0, 0, 0, 0]) \<and>
   (1 :: int) \<le> uint (hd [40, 50, 0, 186, 19, 250, 250, 250, 0, 0, 0, 0 :: byte])"
proof -
  have b: "batch_encode
     [PDF_histogram [0, 1 / 10, 2 / 10, 3 / 10, 4 / 10] [0, 0, 0, 0, 0],
      PDF_histogram [0, 1 / 10, 2 / 10, 3 / 10, 4 / 10] [0, 1, 1, 1, 0],
      Samples [Finite (1 / 10), NonFinite]] 5 8 None False
     = Some (Inr [[0, 0], [506200328, 133888762], [0, 0]])"
    by code_simp
  have e: "encode_quantiles [0, 1 / 10, 2 / 10, 3 / 10, 1] 12 True (Some (1 / 1000)) =
     Inr (3, [40, 50, 0, 186, 19, 250, 250, 250, 0, 0, 0, 0])"
    by code_simp
  from sentinel [of
     "[PDF_histogram [0, 1 / 10, 2 / 10, 3 / 10, 4 / 10] [0, 0, 0, 0, 0],
      PDF_histogram [0, 1 / 10, 2 / 10, 3 / 10, 4 / 10] [0, 1, 1, 1, 0],
      Samples [Finite (1 / 10), NonFinite]]" 5 8 None False
     "[[0, 0], [506200328, 133888762], [0, 0]]"
     "[0, 1 / 10, 2 / 10, 3 / 10, 1]" 12 True "Some (1 / 1000)" 3
     "[40, 50, 0, 186, 19, 250, 250, 250, 0, 0, 0, 0]"] b e
  show ?thesis
    by simp
qed

section \<open>Normalization in \<^verbatim>\<open>quantiles_to_binned\<close>\<close>

lemma mass_scaled: "mass (map (\<lambda>p. p / s) pdf) d = mass pdf d / s"
  by (induction pdf) (simp_all add: mass_def add_divide_distrib)

lemma mass_normalise:
  "mass (normalise pdf d) d = (if mass pdf d > 0 then 1 else mass pdf d)"
  by (simp add: normalise_def Let_def mass_scaled)

lemma make_grid_zvector:
  "make_grid zq dz Nbins z_min z_max (Some zv) = Inr (z_grid, dz') \<Longrightarrow> z_grid = zv"
  by (auto simp: make_grid_def split: if_splits)

lemma quantiles_to_binned_Inr:
  assumes "quantiles_to_binned spline zq dz Nbins z_min z_max zvector method force_range = Inr res"
  obtains z_grid dz' F_grid where
    "make_grid zq dz Nbins z_min z_max zvector = Inr (z_grid, dz')"
    "grid_cdf spline zq z_grid method = Inr F_grid"
    "pdf_of res = normalise (differences F_grid) (dz_eff_of z_grid)"
    "zvector = None \<longrightarrow> res = GridAndPdf z_grid (pdf_of res)"
    "zvector \<noteq> None \<longrightarrow> res = PdfOnly (pdf_of res)"
  using assms unfolding quantiles_to_binned_def Let_def
  by (auto split: if_splits sum.splits option.splits prod.splits)

text \<open>
  Claim C7, as stated, fails. With \<open>force_range\<close> set, the quantiles \<open>[0, 1]\<close> and the
  grid \<open>[10, 11]\<close>, every bin edge lies above the last quantile, the interpolated CDF is 1
  at every edge, the differences are all zero, \<open>pdf_sum\<close> is 0 and the guard
  \<^verbatim>\<open>if pdf_sum > 0\<close> skips the division: the function returns \<open>[0, 0]\<close>, whose integral
  over the grid is 0.
\<close>

theorem binned_mass_counterexample:
  "quantiles_to_binned (\<lambda>Xout X Y. Inl TypeError) [0, 1] None None None None (Some [10, 11])
     ''linear'' True = Inr (PdfOnly [0, 0]) \<and>
   sum_list [0, 0 :: rat] * (11 - 10) \<noteq> 1"
  by code_simp

text \<open>
  Claim C7, amended. Whenever \<^verbatim>\<open>quantiles_to_binned\<close> returns, its density vector is
  built from the successive differences of the interpolated CDF on the grid: where their
  sum times the grid spacing \<open>dz_eff\<close> is positive, the returned vector integrates to
  exactly 1 over the grid (in exact arithmetic); otherwise the differences are returned as
  they are.
\<close>

theorem binned_mass_amended:
  assumes "quantiles_to_binned spline zq dz Nbins z_min z_max zvector method force_range = Inr res"
  shows "\<exists>z_grid F_grid.
           grid_cdf spline zq z_grid method = Inr F_grid \<and>
           (zvector = None \<longrightarrow> res = GridAndPdf z_grid (pdf_of res)) \<and>
           (\<forall>zv. zvector = Some zv \<longrightarrow> z_grid = zv \<and> res = PdfOnly (pdf_of res)) \<and>
           (if mass (differences F_grid) (dz_eff_of z_grid) > 0
            then mass (pdf_of res) (dz_eff_of z_grid) = 1
            else pdf_of res = differences F_grid)"
proof -
  from assms obtain z_grid dz' F_grid where
    g: "make_grid zq dz Nbins z_min z_max zvector = Inr (z_grid, dz')" and
    c: "grid_cdf spline zq z_grid method = Inr F_grid" and
    p: "pdf_of res = normalise (differences F_grid) (dz_eff_of z_grid)" and
    r1: "zvector = None \<longrightarrow> res = GridAndPdf z_grid (pdf_of res)" and
    r2: "zvector \<noteq> None \<longrightarrow> res = PdfOnly (pdf_of res)"
    by (rule quantiles_to_binned_Inr)
  have z: "\<forall>zv. zvector = Some zv \<longrightarrow> z_grid = zv \<and> res = PdfOnly (pdf_of res)"
    using g r2 make_grid_zvector by blast
  have "if mass (differences F_grid) (dz_eff_of z_grid) > 0
        then mass (pdf_of res) (dz_eff_of z_grid) = 1
        else pdf_of res = differences F_grid"
    unfolding p by (simp add: mass_normalise) (simp add: normalise_def)
  with c r1 z show ?thesis by blast
qed

theorem binned_mass_amended_witness:
  "quantiles_to_binned (\<lambda>Xout X Y. Inl TypeError) [0, 1 / 2, 1] None None None None
     (Some [0, 1 / 4, 1 / 2, 3 / 4, 1]) ''linear'' False = Inr (PdfOnly [1 / 2, 1, 1, 1, 1 / 2]) \<and>
   grid_cdf (\<lambda>Xout X Y. Inl TypeError) [0, 1 / 2, 1] [0, 1 / 4, 1 / 2, 3 / 4, 1] ''linear''
     = Inr [0, 1 / 8, 3 / 8, 5 / 8, 7 / 8, 1] \<and>
   mass (differences [0, 1 / 8, 3 / 8, 5 / 8, 7 / 8, 1]) (dz_eff_of [0, 1 / 4, 1 / 2, 3 / 4, 1]) > 0 \<and>
   mass [1 / 2, 1, 1, 1, 1 / 2] (dz_eff_of [0, 1 / 4, 1 / 2, 3 / 4, 1]) = 1 \<and>
   quantiles_to_binned (\<lambda>Xout X Y. Inl TypeError) [0, 1] None None None None (Some [10, 11])
     ''linear'' True = Inr (PdfOnly [0, 0]) \<and>
   grid_cdf (\<lambda>Xout X Y. Inl TypeError) [0, 1] [10, 11] ''linear'' = Inr [1, 1, 1] \<and>
   \<not> mass (differences [1, 1, 1]) (dz_eff_of [10, 11]) > 0 \<and>
   [0, 0] = differences [1, 1, 1 :: rat]"
proof -
  have e: "quantiles_to_binned (\<lambda>Xout X Y. Inl TypeError) [0, 1 / 2, 1] None None None None
     (Some [0, 1 / 4, 1 / 2, 3 / 4, 1]) ''linear'' False = Inr (PdfOnly [1 / 2, 1, 1, 1, 1 / 2])"
    by code_simp
  have c: "grid_cdf (\<lambda>Xout X Y. Inl TypeError) [0, 1 / 2, 1] [0, 1 / 4, 1 / 2, 3 / 4, 1] ''linear''
     = Inr [0, 1 / 8, 3 / 8, 5 / 8, 7 / 8, 1]"
    by code_simp
  have m: "mass (differences [0, 1 / 8, 3 / 8, 5 / 8, 7 / 8, 1])
             (dz_eff_of [0, 1 / 4, 1 / 2, 3 / 4, 1]) > 0"
    by code_simp
  from binned_mass_amended [OF e] c m
  have one: "mass [1 / 2, 1, 1, 1, 1 / 2] (dz_eff_of [0, 1 / 4, 1 / 2, 3 / 4, 1]) = 1"
    by auto
  have e': "quantiles_to_binned (\<lambda>Xout X Y. Inl TypeError) [0, 1] None None None None
     (Some [10, 11]) ''linear'' True = Inr (PdfOnly [0, 0])"
    by code_simp
  have c': "grid_cdf (\<lambda>Xout X Y. Inl TypeError) [0, 1] [10, 11] ''linear'' = Inr [1, 1, 1]"
    by code_simp
  have m': "\<not> mass (differences [1, 1, 1]) (dz_eff_of [10, 11]) > 0"
    by code_simp
  from binned_mass_amended [OF e'] c' m'
  have raw: "[0, 0] = differences [1, 1, 1 :: rat]"
    by auto
  from e c m one e' c' m' raw show ?thesis
    by (intro conjI)
qed

section \<open>The return of \<^verbatim>\<open>decode_to_samples\<close>\<close>

lemma fill_samples_zero_rows:
  "list_all (\<lambda>ws. \<not> any_nonzero ws) rows \<Longrightarrow>
   fill_samples spline draw i rows n method = Inr (replicate (length rows) (replicate n NonFinite))"
  by (induction rows arbitrary: i) simp_all

text \<open>
  Claim C9. \<^verbatim>\<open>decode_to_samples\<close> never returns a value: whatever the packets, the
  draws and the arguments, its result is an exception; and whenever the loop over the
  sources completes (in particular when every packet is all-zero) the exception is the
  NameError of \<^verbatim>\<open>return PDF\<close>.
\<close>

theorem decode_to_samples_never_returns:
  "(\<forall>samples. decode_to_samples spline draw int32col Nsamples method \<noteq> Inr samples) \<and>
   (\<forall>n samples. Nsamples = Some n \<and> 0 \<le> n \<and>
       fill_samples spline draw 0 int32col (nat n) method = Inr samples \<longrightarrow>
       decode_to_samples spline draw int32col Nsamples method = Inl NameError) \<and>
   (\<forall>n. Nsamples = Some n \<and> 0 \<le> n \<and> list_all (\<lambda>ws. \<not> any_nonzero ws) int32col \<longrightarrow>
       decode_to_samples spline draw int32col Nsamples method = Inl NameError)"
proof (intro conjI allI impI)
  fix samples
  show "decode_to_samples spline draw int32col Nsamples method \<noteq> Inr samples"
    by (simp add: decode_to_samples_def split: option.splits sum.splits)
next
  fix n samples
  assume "Nsamples = Some n \<and> 0 \<le> n \<and>
       fill_samples spline draw 0 int32col (nat n) method = Inr samples"
  then show "decode_to_samples spline draw int32col Nsamples method = Inl NameError"
    by (simp add: decode_to_samples_def)
next
  fix n
  assume "Nsamples = Some n \<and> 0 \<le> n \<and> list_all (\<lambda>ws. \<not> any_nonzero ws) int32col"
  then show "decode_to_samples spline draw int32col Nsamples method = Inl NameError"
    by (simp add: decode_to_samples_def fill_samples_zero_rows)
qed

theorem decode_to_samples_never_returns_witness:
  "fill_samples (\<lambda>Xout X Y. Inl TypeError) (\<lambda>i k. of_nat k / 4) 0
     [[0, 0], [506200328, 133888762]] (nat 4) ''linear'' =
     Inr [[NonFinite, NonFinite, NonFinite, NonFinite],
          [Finite (1 / 20), Finite (1 / 8), Finite (1 / 5), Finite (11 / 40)]] \<and>
   decode_to_samples (\<lambda>Xout X Y. Inl TypeError) (\<lambda>i k. of_nat k / 4)
     [[0, 0], [506200328, 133888762]] (Some 4) ''linear'' = Inl NameError \<and>
   list_all (\<lambda>ws. \<not> any_nonzero ws) [[0, 0], [0, 0 :: 32 word]] \<and>
   decode_to_samples (\<lambda>Xout X Y. Inl TypeError) (\<lambda>i k. of_nat k / 4)
     [[0, 0], [0, 0]] (Some 4) ''linear'' = Inl NameError"
proof -
  have f: "fill_samples (\<lambda>Xout X Y. Inl TypeError) (\<lambda>i k. of_nat k / 4) 0
     [[0, 0], [506200328, 133888762]] (nat 4) ''linear'' =
     Inr [[NonFinite, NonFinite, NonFinite, NonFinite],
          [Finite (1 / 20), Finite (1 / 8), Finite (1 / 5), Finite (11 / 40)]]"
    by code_simp
  have z: "list_all (\<lambda>ws. \<not> any_nonzero ws) [[0, 0], [0, 0 :: 32 word]]"
    by (simp add: any_nonzero_def)
  have a: "decode_to_samples (\<lambda>Xout X Y. Inl TypeError) (\<lambda>i k. of_nat k / 4)
     [[0, 0], [506200328, 133888762]] (Some 4) ''linear'' = Inl NameError"
  proof (rule decode_to_samples_never_returns [THEN conjunct2, THEN conjunct1, rule_format])
    show "Some 4 = Some (4 :: int) \<and> (0 :: int) \<le> 4 \<and>
      fill_samples (\<lambda>Xout X Y. Inl TypeError) (\<lambda>i k. of_nat k / 4) 0
        [[0, 0], [506200328, 133888762]] (nat 4) ''linear'' =
      Inr [[NonFinite, NonFinite, NonFinite, NonFinite],
           [Finite (1 / 20), Finite (1 / 8), Finite (1 / 5), Finite (11 / 40)]]"
      by (intro conjI refl f) simp
  qed
  have b: "decode_to_samples (\<lambda>Xout X Y. Inl TypeError) (\<lambda>i k. of_nat k / 4)
     [[0, 0], [0, 0]] (Some 4) ''linear'' = Inl NameError"
  proof (rule decode_to_samples_never_returns [THEN conjunct2, THEN conjunct2, rule_format])
    show "Some 4 = Some (4 :: int) \<and> (0 :: int) \<le> 4 \<and>
      list_all (\<lambda>ws. \<not> any_nonzero ws) [[0, 0], [0, 0 :: 32 word]]"
      by (intro conjI refl z) simp
  qed
  from f a z b show ?thesis by simp
qed

end
